theory Spec2Isabelle
  imports Complex_Main "HOL-Library.Multiset"
begin

section \<open>Host language primitives\<close>

text \<open>
  The planning engine is TypeScript, and its numbers are IEEE 754 doubles. A count, a
  sum of counts and the result of \<open>Math.round\<close> are \<open>nat\<close> or \<open>int\<close> here, exact as the
  host's are up to \<open>2^53\<close>. Every other number is the rational it denotes, and an
  operation that can round (a product, a quotient or a difference with an operand that
  is not a count) rounds its exact result to the nearest double, a tie going to the even
  one (\<open>dbl\<close>); the range of the exponent is not modelled. Strings are \<open>string\<close> over
  ASCII. Two services of the host are not written in the repository and are taken as
  parameters wherever the code calls them: the conversion of a number to its decimal
  text inside a template literal (\<open>number_to_string\<close>), and \<open>Array.prototype.sort\<close> with
  a comparator that need not be a consistent order (a parameter of
  \<open>orderByDependencies\<close> below).
\<close>

subsection \<open>Doubles\<close>

function expo_up :: "rat \<Rightarrow> nat" where
  \<comment> \<open>For \<open>x \<ge> 1\<close>, the \<open>k\<close> with \<open>2^k \<le> x < 2^(k+1)\<close>.\<close>
  "expo_up x = (if x < 2 then 0 else Suc (expo_up (x / 2)))"
  by pat_completeness auto
termination
proof (relation "measure (\<lambda>x. nat \<lfloor>x\<rfloor>)")
  show "wf (measure (\<lambda>x::rat. nat \<lfloor>x\<rfloor>))" by simp
next
  fix x :: rat
  assume "\<not> x < 2"
  then have x: "2 \<le> x" by simp
  have "\<lfloor>x / 2\<rfloor> < \<lfloor>x\<rfloor>"
  proof -
    have "x / 2 + 1 \<le> x" using x by simp
    then have "\<lfloor>x / 2 + 1\<rfloor> \<le> \<lfloor>x\<rfloor>" by (rule floor_mono)
    then show ?thesis by simp
  qed
  moreover have "0 < \<lfloor>x\<rfloor>" using x by simp
  ultimately show "(x / 2, x) \<in> measure (\<lambda>x. nat \<lfloor>x\<rfloor>)" by simp
qed

declare expo_up.simps [simp del]

definition expo :: "rat \<Rightarrow> int" where
  \<comment> \<open>The binary exponent of a positive number: \<open>2^(expo x) \<le> x < 2^(expo x + 1)\<close>.\<close>
  "expo x = (if 1 \<le> x then int (expo_up x)
             else let k = expo_up (1 / x)
                  in if 1 / x = 2 ^ k then - int k else - int k - 1)"

definition rne :: "rat \<Rightarrow> int" where
  \<comment> \<open>The nearest integer, a tie going to the even one.\<close>
  "rne y = (let f = \<lfloor>y\<rfloor>; r = y - of_int f
            in if r < 1 / 2 then f else if 1 / 2 < r then f + 1
               else if even f then f else f + 1)"

definition dbl_pos :: "rat \<Rightarrow> rat" where
  \<comment> \<open>A positive number rounded to 53 significant bits.\<close>
  "dbl_pos x = (let u = 2 powi (expo x - 52) in of_int (rne (x / u)) * u)"

definition dbl :: "rat \<Rightarrow> rat" where
  \<comment> \<open>The double nearest to a number; a decimal literal \<open>0.6\<close> of the source is
      \<open>dbl (6 / 10)\<close>.\<close>
  "dbl x = (if x = 0 then 0 else if 0 < x then dbl_pos x else - dbl_pos (- x))"

definition js_mul :: "rat \<Rightarrow> rat \<Rightarrow> rat" where
  "js_mul a b = dbl (a * b)"

definition js_div :: "rat \<Rightarrow> rat \<Rightarrow> rat" where
  \<comment> \<open>Every division of the source has its divisor checked or known not to be 0.\<close>
  "js_div a b = dbl (a / b)"

definition js_sub :: "rat \<Rightarrow> rat \<Rightarrow> rat" where
  "js_sub a b = dbl (a - b)"

definition js_add :: "rat \<Rightarrow> rat \<Rightarrow> rat" where
  "js_add a b = dbl (a + b)"

subsection \<open>Rounding, defaults, arrays and strings\<close>

record js_host =
  number_to_string :: "rat \<Rightarrow> string"

definition js_round :: "rat \<Rightarrow> int" where
  \<comment> \<open>\<open>Math.round\<close>: the nearest integer, a tie going up.\<close>
  "js_round x = \<lfloor>x + 1 / 2\<rfloor>"

definition js_or :: "rat option \<Rightarrow> rat \<Rightarrow> rat" where
  \<comment> \<open>\<open>v || d\<close> on a number that may be undefined: undefined and 0 are falsy.\<close>
  "js_or v d = (case v of None \<Rightarrow> d | Some x \<Rightarrow> if x = 0 then d else x)"

fun dedupe :: "'a list \<Rightarrow> 'a list" where
  \<comment> \<open>\<open>[...new Set(xs)]\<close>: the first occurrence of each element, in insertion order.\<close>
  "dedupe [] = []"
| "dedupe (x # xs) = x # dedupe (filter (\<lambda>y. y \<noteq> x) xs)"

fun join :: "string \<Rightarrow> string list \<Rightarrow> string" where
  \<comment> \<open>\<open>Array.prototype.join\<close> on strings.\<close>
  "join sep [] = []"
| "join sep [x] = x"
| "join sep (x # y # ys) = x @ sep @ join sep (y # ys)"

definition to_lower :: "char \<Rightarrow> char" where
  \<comment> \<open>\<open>toLowerCase\<close> on an ASCII character.\<close>
  "to_lower c = (let n = (of_char c :: nat) in
                   if 65 \<le> n \<and> n \<le> 90 then char_of (n + 32) else c)"

definition to_upper :: "char \<Rightarrow> char" where
  \<comment> \<open>\<open>toUpperCase\<close> on an ASCII character.\<close>
  "to_upper c = (let n = (of_char c :: nat) in
                   if 97 \<le> n \<and> n \<le> 122 then char_of (n - 32) else c)"

definition toLowerCase :: "string \<Rightarrow> string" where
  "toLowerCase s = map to_lower s"

fun strip_prefix :: "string \<Rightarrow> string \<Rightarrow> string option" where
  \<comment> \<open>What is left of the second string after the first, when it starts with it.\<close>
  "strip_prefix [] s = Some s"
| "strip_prefix (c # w) [] = None"
| "strip_prefix (c # w) (d # s) = (if c = d then strip_prefix w s else None)"

fun tails :: "'a list \<Rightarrow> 'a list list" where
  \<comment> \<open>Every suffix of a list: the places where a search can start.\<close>
  "tails [] = [[]]"
| "tails (x # xs) = (x # xs) # tails xs"

definition includes_str :: "string \<Rightarrow> string \<Rightarrow> bool" where
  \<comment> \<open>\<open>s.includes(w)\<close>.\<close>
  "includes_str s w = list_ex (\<lambda>t. strip_prefix w t \<noteq> None) (tails s)"

definition startsWith :: "string \<Rightarrow> string \<Rightarrow> bool" where
  "startsWith s w = (strip_prefix w s \<noteq> None)"

subsection \<open>Regular expressions\<close>

text \<open>
  The regular expression literals of the source use literal text, alternation,
  sequence, an optional part (\<open>?\<close>), and the repetitions \<open>\s+\<close> and \<open>.*\<close>. \<open>rests r s\<close>
  lists what can remain of \<open>s\<close> after a match of \<open>r\<close> at its start; \<open>RegExp.test\<close>
  asks for a match starting anywhere. The flag \<open>i\<close> is only ever used with patterns in
  lower case: such a test lowers the subject first.
\<close>

datatype char_class = Whitespace | AnyChar

fun in_class :: "char_class \<Rightarrow> char \<Rightarrow> bool" where
  \<comment> \<open>\<open>\s\<close> over ASCII, and \<open>.\<close> (anything but a line terminator).\<close>
  "in_class Whitespace c =
     (c \<in> set [CHR 0x09, CHR 0x0A, CHR 0x0B, CHR 0x0C, CHR 0x0D, CHR '' ''])"
| "in_class AnyChar c = (c \<notin> set [CHR 0x0A, CHR 0x0D])"

datatype regex =
    Lit string
  | Alt regex regex
  | Seq regex regex
  | Opt regex
  | Star char_class
  | Plus char_class

fun star_rests :: "char_class \<Rightarrow> string \<Rightarrow> string list" where
  "star_rests k [] = [[]]"
| "star_rests k (c # s) = (c # s) # (if in_class k c then star_rests k s else [])"

fun rests :: "regex \<Rightarrow> string \<Rightarrow> string list" where
  "rests (Lit w) s = (case strip_prefix w s of None \<Rightarrow> [] | Some t \<Rightarrow> [t])"
| "rests (Alt a b) s = rests a s @ rests b s"
| "rests (Seq a b) s = concat (map (rests b) (rests a s))"
| "rests (Opt a) s = rests a s @ [s]"
| "rests (Star k) s = star_rests k s"
| "rests (Plus k) s =
     (case s of [] \<Rightarrow> [] | c # t \<Rightarrow> if in_class k c then star_rests k t else [])"

definition rx_test :: "regex \<Rightarrow> string \<Rightarrow> bool" where
  \<comment> \<open>\<open>r.test(s)\<close> for a pattern without flags.\<close>
  "rx_test r s = list_ex (\<lambda>t. rests r t \<noteq> []) (tails s)"

definition rx_test_i :: "regex \<Rightarrow> string \<Rightarrow> bool" where
  \<comment> \<open>\<open>r.test(s)\<close> for a lower-case pattern with the flag \<open>i\<close>.\<close>
  "rx_test_i r s = rx_test r (toLowerCase s)"

fun alts :: "string \<Rightarrow> string list \<Rightarrow> regex" where
  \<comment> \<open>\<open>w|v|...\<close>: an alternation of literal texts.\<close>
  "alts w [] = Lit w"
| "alts w (v # vs) = Alt (Lit w) (alts v vs)"

fun seqs :: "regex \<Rightarrow> regex list \<Rightarrow> regex" where
  \<comment> \<open>A sequence of parts.\<close>
  "seqs r [] = r"
| "seqs r (q # qs) = Seq r (seqs q qs)"

subsection \<open>A host for the examples\<close>

text \<open>
  The examples need some conversion of numbers to text: decimal digits, with up to 17
  digits after the point. No theorem depends on the text it produces.
\<close>

fun digit_char :: "nat \<Rightarrow> char" where
  "digit_char n = char_of (48 + n mod 10)"

fun nat_digits :: "nat \<Rightarrow> nat \<Rightarrow> string" where
  "nat_digits 0 n = []"
| "nat_digits (Suc fuel) n =
     (if n < 10 then [digit_char n] else nat_digits fuel (n div 10) @ [digit_char n])"

fun frac_digits :: "nat \<Rightarrow> rat \<Rightarrow> string" where
  "frac_digits 0 r = []"
| "frac_digits (Suc fuel) r =
     (if r = 0 then []
      else digit_char (nat \<lfloor>r * 10\<rfloor>) # frac_digits fuel (r * 10 - of_int \<lfloor>r * 10\<rfloor>))"

definition decimal_text :: "rat \<Rightarrow> string" where
  "decimal_text r =
     (let a = \<bar>r\<bar>; whole = nat \<lfloor>a\<rfloor>; part = a - of_int \<lfloor>a\<rfloor>
      in (if r < 0 then ''-'' else []) @ nat_digits (Suc whole) whole
           @ (if part = 0 then [] else ''.'' @ frac_digits 17 part))"

definition example_host :: js_host where
  "example_host = \<lparr> number_to_string = decimal_text \<rparr>"

section \<open>Data model (adapters/interface and lib/estimator)\<close>

datatype Priority = P0_Critical | P1_High | P2_Medium | P3_Low

fun priority_name :: "Priority \<Rightarrow> string" where
  \<comment> \<open>The string each value of the union type \<open>Priority\<close> is at run time.\<close>
  "priority_name P0_Critical = ''P0-Critical''"
| "priority_name P1_High = ''P1-High''"
| "priority_name P2_Medium = ''P2-Medium''"
| "priority_name P3_Low = ''P3-Low''"

record Label =
  label_id :: string
  label_name :: string

text \<open>
  Of an \<open>Issue\<close> the record keeps the fields the planning core reads. \<open>parent\<close> is an
  embedded \<open>Issue\<close> in the source, of which the core reads the \<open>id\<close> only: the field
  holds that id. The fields \<open>id\<close> and \<open>identifier\<close> are \<open>issue_id\<close> and
  \<open>issue_identifier\<close> here.
\<close>

record Issue =
  issue_id :: string
  issue_identifier :: string
  title :: string
  description :: string
  priority :: Priority
  labels :: "Label list"
  parent :: "string option"
  estimate :: "rat option"

datatype Complexity = Low | Medium | High

fun complexity_name :: "Complexity \<Rightarrow> string" where
  "complexity_name Low = ''low''"
| "complexity_name Medium = ''medium''"
| "complexity_name High = ''high''"

datatype Confidence = ConfLow | ConfMedium | ConfHigh

record FileInfo =
  path :: string
  lines :: nat
  language :: string
  complexity :: Complexity

record CodebaseContext =
  filesLikelyTouched :: "FileInfo list"
  relatedFiles :: "FileInfo list"
  totalLines :: nat
  avgComplexity :: Complexity

record TokenBreakdown =
  codebaseContext :: int
  implementation :: int
  tests :: int
  review :: int
  documentation :: int

record TokenEstimate =
  est_total :: int
  breakdown :: TokenBreakdown
  confidence :: Confidence
  assumptions :: "string list"
  filesAnalyzed :: nat

record Multipliers =
  contextExpansion :: rat
  testOverhead :: rat
  reviewOverhead :: rat
  documentation_mult :: rat

record EstimationConfig =
  multipliers :: Multipliers
  cfg_complexity :: "Complexity \<Rightarrow> rat"
  cfg_priority :: "string \<rightharpoonup> rat"
  reviewCycles :: rat

definition DEFAULT_CONFIG :: EstimationConfig where
  "DEFAULT_CONFIG = \<lparr>
     multipliers = \<lparr> contextExpansion = 3 / 2, testOverhead = dbl (6 / 10),
                      reviewOverhead = dbl (3 / 10), documentation_mult = dbl (1 / 10) \<rparr>,
     cfg_complexity = (\<lambda>c. case c of Low \<Rightarrow> 1 | Medium \<Rightarrow> 3 / 2 | High \<Rightarrow> 5 / 2),
     cfg_priority = map_of [(''P0-Critical'', 3 / 2), (''P1-High'', dbl (12 / 10)),
                            (''P2-Medium'', 1), (''P3-Low'', dbl (8 / 10))],
     reviewCycles = 2 \<rparr>"

section \<open>Token estimator (lib/estimator)\<close>

definition BASE_OVERHEAD :: int where
  "BASE_OVERHEAD = 5000"

definition TOKENS_PER_LINE :: int where
  "TOKENS_PER_LINE = 100"

text \<open>
  The helpers of \<open>estimate\<close> push their notes onto the caller's \<open>assumptions\<close> array:
  they take the array and return it extended, beside their result.
\<close>

definition estimateContextTokens ::
  "js_host \<Rightarrow> EstimationConfig \<Rightarrow> CodebaseContext \<Rightarrow> string list \<Rightarrow> int \<times> string list" where
  "estimateContextTokens h cfg ctx notes =
     (let directTokens = foldl (\<lambda>sum f. sum + int (lines f) * TOKENS_PER_LINE) 0
                           (filesLikelyTouched ctx);
          relatedTokens = foldl (\<lambda>sum f. sum + int (lines f) * TOKENS_PER_LINE) 0
                           (relatedFiles ctx);
          contextTokens = directTokens
            + js_round (js_mul (of_int relatedTokens) (contextExpansion (multipliers cfg)))
      in (contextTokens,
          notes @ [number_to_string h (of_nat (length (filesLikelyTouched ctx)))
                     @ '' direct files, ''
                     @ number_to_string h (of_nat (length (relatedFiles ctx)))
                     @ '' related files'']))"

definition estimateImplementationTokens ::
  "js_host \<Rightarrow> EstimationConfig \<Rightarrow> Issue \<Rightarrow> CodebaseContext \<Rightarrow> string list
     \<Rightarrow> int \<times> string list" where
  "estimateImplementationTokens h cfg issue ctx notes =
     (let baseTokens = int (totalLines ctx) * 2 * TOKENS_PER_LINE;
          complexityMult = cfg_complexity cfg (avgComplexity ctx);
          notes1 = notes @ [''Complexity: '' @ complexity_name (avgComplexity ctx) @ '' (''
                              @ number_to_string h complexityMult @ ''x)''];
          priorityMult = js_or (cfg_priority cfg (priority_name (priority issue))) 1;
          notes2 = notes1 @ [''Priority: '' @ priority_name (priority issue) @ '' (''
                               @ number_to_string h priorityMult @ ''x)'']
      in (js_round (js_mul (js_mul (of_int baseTokens) complexityMult) priorityMult), notes2))"

definition calculateConfidence :: "Issue \<Rightarrow> CodebaseContext \<Rightarrow> Confidence" where
  "calculateConfidence issue ctx =
     (let s1 = (if length (filesLikelyTouched ctx) \<ge> 3 then 2
                else if length (filesLikelyTouched ctx) \<ge> 1 then 1 else (0::nat));
          s2 = s1 + (if description issue \<noteq> [] \<and> length (description issue) > 200 then 2
                     else if description issue \<noteq> [] \<and> length (description issue) > 50 then 1
                     else 0);
          s3 = s2 + (if length (labels issue) \<ge> 2 then 1 else 0);
          score = s3 + (case estimate issue of None \<Rightarrow> 0 | Some e \<Rightarrow> if e = 0 then 0 else 1)
      in if score \<ge> 5 then ConfHigh else if score \<ge> 3 then ConfMedium else ConfLow)"

definition estimate_issue ::
  "js_host \<Rightarrow> EstimationConfig \<Rightarrow> Issue \<Rightarrow> CodebaseContext \<Rightarrow> TokenEstimate" where
  \<comment> \<open>\<open>TokenEstimator.estimate\<close> (the name \<open>estimate\<close> is the field of \<open>Issue\<close>).\<close>
  "estimate_issue h cfg issue ctx =
     (let (contextTokens, a1) = estimateContextTokens h cfg ctx [];
          (implTokens, a2) = estimateImplementationTokens h cfg issue ctx a1;
          testTokens = js_round (js_mul (of_int implTokens) (testOverhead (multipliers cfg)));
          a3 = a2 @ [''Tests estimated at ''
                       @ number_to_string h (js_mul (testOverhead (multipliers cfg)) 100)
                       @ ''% of implementation''];
          reviewTokens = js_round (js_mul (js_mul (of_int (implTokens + testTokens))
                                              (reviewOverhead (multipliers cfg)))
                                     (reviewCycles cfg));
          a4 = a3 @ [number_to_string h (reviewCycles cfg) @ '' review cycles at ''
                       @ number_to_string h (js_mul (reviewOverhead (multipliers cfg)) 100)
                       @ ''% overhead each''];
          docTokens = js_round (js_mul (of_int implTokens)
                                       (documentation_mult (multipliers cfg)));
          total = BASE_OVERHEAD + contextTokens + implTokens + testTokens + reviewTokens
                    + docTokens
      in \<lparr> est_total = total,
           breakdown = \<lparr> codebaseContext = contextTokens, implementation = implTokens,
                         tests = testTokens, review = reviewTokens,
                         documentation = docTokens \<rparr>,
           confidence = calculateConfidence issue ctx,
           assumptions = a4,
           filesAnalyzed = length (filesLikelyTouched ctx) + length (relatedFiles ctx) \<rparr>)"

definition createEmptyContext :: CodebaseContext where
  "createEmptyContext = \<lparr> filesLikelyTouched = [], relatedFiles = [], totalLines = 50,
                           avgComplexity = Medium \<rparr>"

definition aggregateConfidence :: "TokenEstimate list \<Rightarrow> Confidence" where
  \<comment> \<open>The average of no scores is \<open>0 / 0\<close>, NaN in the source: \<open>None\<close> here, and every
      comparison with it is false.\<close>
  "aggregateConfidence estimates =
     (let scores = map (\<lambda>e. case confidence e of ConfHigh \<Rightarrow> (3::rat) | ConfMedium \<Rightarrow> 2
                                | ConfLow \<Rightarrow> 1) estimates;
          avg = (if length scores = 0 then None
                 else Some (js_div (foldl (+) 0 scores) (of_nat (length scores))))
      in if (case avg of None \<Rightarrow> False | Some a \<Rightarrow> a \<ge> 5 / 2) then ConfHigh
         else if (case avg of None \<Rightarrow> False | Some a \<Rightarrow> a \<ge> 3 / 2) then ConfMedium
         else ConfLow)"

text \<open>
  \<open>calculateSharedContextReduction\<close> walks the issues and, for each one that has a
  context, the paths of its touched files followed by those of its related files, with
  two sets: every path seen (\<open>allFiles\<close>) and every path seen again (\<open>sharedFiles\<close>).
\<close>

definition context_paths :: "CodebaseContext \<Rightarrow> string list" where
  "context_paths ctx = map path (filesLikelyTouched ctx) @ map path (relatedFiles ctx)"

definition scan_file :: "string set \<times> string set \<Rightarrow> string \<Rightarrow> string set \<times> string set" where
  "scan_file st file =
     (case st of (allFiles, sharedFiles) \<Rightarrow>
        (insert file allFiles,
         if file \<in> allFiles then insert file sharedFiles else sharedFiles))"

definition scan_issue ::
  "(string \<rightharpoonup> CodebaseContext) \<Rightarrow> string set \<times> string set \<Rightarrow> Issue
     \<Rightarrow> string set \<times> string set" where
  "scan_issue contexts st issue =
     (case contexts (issue_id issue) of
        None \<Rightarrow> st
      | Some ctx \<Rightarrow> foldl scan_file st (context_paths ctx))"

definition calculateSharedContextReduction ::
  "Issue list \<Rightarrow> (string \<rightharpoonup> CodebaseContext) \<Rightarrow> rat" where
  "calculateSharedContextReduction issues contexts =
     (if length issues < 2 then 0
      else case foldl (scan_issue contexts) ({}, {}) issues of (allFiles, sharedFiles) \<Rightarrow>
        if card allFiles = 0 then 0
        else let overlapRatio = js_div (of_nat (card sharedFiles)) (of_nat (card allFiles))
             in min (js_mul overlapRatio (dbl (7 / 10))) (1 / 2))"

definition add_estimate :: "TokenBreakdown \<times> string list \<Rightarrow> TokenEstimate
                              \<Rightarrow> TokenBreakdown \<times> string list" where
  \<comment> \<open>One turn of the loop of \<open>estimateWave\<close> over the per-issue estimates.\<close>
  "add_estimate acc est =
     (case acc of (tb, allAssumptions) \<Rightarrow>
        (\<lparr> codebaseContext = codebaseContext tb + codebaseContext (breakdown est),
            implementation = implementation tb + implementation (breakdown est),
            tests = tests tb + tests (breakdown est),
            review = review tb + review (breakdown est),
            documentation = documentation tb + documentation (breakdown est) \<rparr>,
         allAssumptions @ assumptions est))"

definition breakdown_values :: "TokenBreakdown \<Rightarrow> int list" where
  \<comment> \<open>\<open>Object.values\<close> of a breakdown, in the order its properties were created.\<close>
  "breakdown_values tb =
     [codebaseContext tb, implementation tb, tests tb, review tb, documentation tb]"

definition context_or_empty :: "(string \<rightharpoonup> CodebaseContext) \<Rightarrow> Issue \<Rightarrow> CodebaseContext" where
  \<comment> \<open>\<open>contexts.get(issue.id) || this.createEmptyContext()\<close>.\<close>
  "context_or_empty contexts issue =
     (case contexts (issue_id issue) of None \<Rightarrow> createEmptyContext | Some ctx \<Rightarrow> ctx)"

definition wave_estimates ::
  "js_host \<Rightarrow> EstimationConfig \<Rightarrow> Issue list \<Rightarrow> (string \<rightharpoonup> CodebaseContext)
     \<Rightarrow> TokenEstimate list" where
  \<comment> \<open>The array \<open>estimates\<close> of \<open>estimateWave\<close>.\<close>
  "wave_estimates h cfg issues contexts =
     map (\<lambda>issue. estimate_issue h cfg issue (context_or_empty contexts issue)) issues"

definition estimateWave ::
  "js_host \<Rightarrow> EstimationConfig \<Rightarrow> Issue list \<Rightarrow> (string \<rightharpoonup> CodebaseContext)
     \<Rightarrow> TokenEstimate" where
  "estimateWave h cfg issues contexts =
     (let estimates = wave_estimates h cfg issues contexts;
          sharedContextReduction = calculateSharedContextReduction issues contexts;
          (summed, allAssumptions) =
            foldl add_estimate
              (\<lparr> codebaseContext = 0, implementation = 0, tests = 0, review = 0,
                  documentation = 0 \<rparr>, []) estimates;
          totalBreakdown = summed \<lparr> codebaseContext :=
            js_round (js_mul (of_int (codebaseContext summed))
                              (js_sub 1 sharedContextReduction)) \<rparr>;
          allAssumptions2 =
            (if sharedContextReduction > 0
             then allAssumptions @ [''Shared context reduction: ''
                    @ number_to_string h (of_int (js_round (js_mul sharedContextReduction 100)))
                    @ ''%'']
             else allAssumptions);
          total = foldl (+) 0 (breakdown_values totalBreakdown)
      in \<lparr> est_total = total,
           breakdown = totalBreakdown,
           confidence = aggregateConfidence estimates,
           assumptions = dedupe allAssumptions2,
           filesAnalyzed = foldl (\<lambda>sum e. sum + filesAnalyzed e) 0 estimates \<rparr>)"

section \<open>Wave organizer (lib/organizer)\<close>

datatype AgentType =
    SecuritySpecialist | BackendDeveloper | FrontendDeveloper | TestEngineer
  | DevopsEngineer | DocumentationWriter | Researcher | GeneralPurpose

record AgentAssignment =
  issueId :: string
  issueIdentifier :: string
  agentType :: AgentType
  rationale :: string

text \<open>
  The fields \<open>number\<close>, \<open>name\<close>, \<open>description\<close> and \<open>issues\<close> of a \<open>Wave\<close> carry the prefix
  \<open>wave_\<close>, and \<open>issues\<close> of a \<open>WaveGroup\<close> is \<open>group_issues\<close>. \<open>groupsToWaves\<close> builds
  waves without \<open>agents\<close> and \<open>organize\<close> adds them: here the field is empty until then.
\<close>

record Wave =
  wave_number :: nat
  wave_name :: string
  wave_description :: string
  wave_issues :: "Issue list"
  tokenEstimate :: TokenEstimate
  agents :: "AgentAssignment list"
  dependencies :: "nat list"
  parallelizable :: bool

record WaveGroup =
  group_issues :: "Issue list"
  sharedFiles :: "string set"
  similarity :: rat

record OrganizerConfig =
  similarityThreshold :: rat
  maxIssuesPerWave :: rat
  tokenBudgetPerWave :: rat
  respectDependencies :: bool

definition DEFAULT_ORGANIZER_CONFIG :: OrganizerConfig where
  "DEFAULT_ORGANIZER_CONFIG = \<lparr> similarityThreshold = dbl (3 / 10), maxIssuesPerWave = 5,
     tokenBudgetPerWave = 150000, respectDependencies = True \<rparr>"

subsection \<open>Step 1: the overlap matrix\<close>

definition getFilesForIssue :: "Issue \<Rightarrow> (string \<rightharpoonup> CodebaseContext) \<Rightarrow> string set" where
  "getFilesForIssue issue contexts =
     (case contexts (issue_id issue) of
        None \<Rightarrow> {}
      | Some ctx \<Rightarrow> set (map path (filesLikelyTouched ctx) @ map path (relatedFiles ctx)))"

definition jaccardSimilarity :: "string set \<Rightarrow> string set \<Rightarrow> rat" where
  "jaccardSimilarity setA setB =
     (if card setA = 0 \<and> card setB = 0 then 0
      else js_div (of_nat (card (setA \<inter> setB))) (of_nat (card (setA \<union> setB))))"

definition overlap_row ::
  "Issue list \<Rightarrow> (string \<rightharpoonup> CodebaseContext) \<Rightarrow> Issue \<Rightarrow> (string \<rightharpoonup> rat)" where
  \<comment> \<open>The inner loop of \<open>calculateOverlapMatrix\<close>: the row of \<open>issueA\<close>.\<close>
  "overlap_row issues contexts issueA =
     foldl (\<lambda>rowMap issueB.
              if issue_id issueA = issue_id issueB then rowMap(issue_id issueB \<mapsto> 1)
              else rowMap(issue_id issueB \<mapsto>
                     jaccardSimilarity (getFilesForIssue issueA contexts)
                                       (getFilesForIssue issueB contexts)))
           Map.empty issues"

definition calculateOverlapMatrix ::
  "Issue list \<Rightarrow> (string \<rightharpoonup> CodebaseContext) \<Rightarrow> (string \<rightharpoonup> (string \<rightharpoonup> rat))" where
  "calculateOverlapMatrix issues contexts =
     foldl (\<lambda>matrix issueA. matrix(issue_id issueA \<mapsto> overlap_row issues contexts issueA))
           Map.empty issues"

definition matrix_get :: "(string \<rightharpoonup> (string \<rightharpoonup> rat)) \<Rightarrow> string \<Rightarrow> string \<Rightarrow> rat" where
  \<comment> \<open>\<open>overlapMatrix.get(a)?.get(b) || 0\<close>.\<close>
  "matrix_get overlapMatrix a b =
     (case overlapMatrix a of None \<Rightarrow> 0 | Some rowMap \<Rightarrow> js_or (rowMap b) 0)"

subsection \<open>Step 2: grouping by shared context\<close>

fun priorityOrder :: "Priority \<Rightarrow> int" where
  "priorityOrder P0_Critical = 0"
| "priorityOrder P1_High = 1"
| "priorityOrder P2_Medium = 2"
| "priorityOrder P3_Low = 3"

definition findSharedFiles :: "Issue list \<Rightarrow> (string \<rightharpoonup> (string \<rightharpoonup> rat)) \<Rightarrow> string set" where
  \<comment> \<open>A placeholder in the source: always the empty set.\<close>
  "findSharedFiles issues overlapMatrix = {}"

definition calculateAvgSimilarity ::
  "Issue list \<Rightarrow> (string \<rightharpoonup> (string \<rightharpoonup> rat)) \<Rightarrow> rat" where
  "calculateAvgSimilarity issues overlapMatrix =
     (if length issues < 2 then 1
      else let pairs = concat (map (\<lambda>i. map (\<lambda>j. (i, j)) [i + 1 ..< length issues])
                                   [0 ..< length issues]);
               total = foldl (\<lambda>t (i, j). js_add t (matrix_get overlapMatrix
                                 (issue_id (issues ! i)) (issue_id (issues ! j)))) 0 pairs;
               count = length pairs
           in if count > 0 then js_div total (of_nat count) else 0)"

definition similar_to ::
  "OrganizerConfig \<Rightarrow> (string \<rightharpoonup> (string \<rightharpoonup> rat)) \<Rightarrow> string set \<Rightarrow> Issue \<Rightarrow> Issue \<Rightarrow> bool" where
  \<comment> \<open>The filter of \<open>groupByContext\<close>: whether \<open>other\<close> joins the group seeded by \<open>issue\<close>.\<close>
  "similar_to cfg overlapMatrix assigned issue other =
     (if issue_id other \<in> assigned then False
      else if issue_id other = issue_id issue then True
      else matrix_get overlapMatrix (issue_id issue) (issue_id other)
             \<ge> similarityThreshold cfg)"

fun group_loop ::
  "OrganizerConfig \<Rightarrow> (string \<rightharpoonup> (string \<rightharpoonup> rat)) \<Rightarrow> Issue list \<Rightarrow> string set
     \<Rightarrow> Issue list \<Rightarrow> WaveGroup list" where
  \<comment> \<open>The loop of \<open>groupByContext\<close> over what is left of \<open>sortedIssues\<close>, with the set
      \<open>assigned\<close>; the groups come out in the order they are pushed.\<close>
  "group_loop cfg overlapMatrix sortedIssues assigned [] = []"
| "group_loop cfg overlapMatrix sortedIssues assigned (issue # rest) =
     (if issue_id issue \<in> assigned
      then group_loop cfg overlapMatrix sortedIssues assigned rest
      else let similar = filter (similar_to cfg overlapMatrix assigned issue) sortedIssues
           in \<lparr> group_issues = similar,
                sharedFiles = findSharedFiles similar overlapMatrix,
                similarity = calculateAvgSimilarity similar overlapMatrix \<rparr>
              # group_loop cfg overlapMatrix sortedIssues
                  (assigned \<union> set (map issue_id similar)) rest)"

definition groupByContext ::
  "OrganizerConfig \<Rightarrow> Issue list \<Rightarrow> (string \<rightharpoonup> (string \<rightharpoonup> rat)) \<Rightarrow> WaveGroup list" where
  \<comment> \<open>The comparator of the sort is the difference of two ranks, a consistent order:
      the sort is the stable sort by rank.\<close>
  "groupByContext cfg issues overlapMatrix =
     (let sortedIssues = sort_key (\<lambda>i. priorityOrder (priority i)) issues
      in group_loop cfg overlapMatrix sortedIssues {} sortedIssues)"

subsection \<open>Step 3: ordering by dependencies\<close>

definition dependencyMap :: "Issue list \<Rightarrow> (string \<rightharpoonup> string set)" where
  "dependencyMap issues =
     foldl (\<lambda>m issue. case parent issue of
                         None \<Rightarrow> m
                       | Some p \<Rightarrow> m(issue_id issue \<mapsto>
                                     insert p (case m (issue_id issue) of None \<Rightarrow> {}
                                               | Some ps \<Rightarrow> ps)))
           Map.empty issues"

definition depends_on :: "(string \<rightharpoonup> string set) \<Rightarrow> WaveGroup \<Rightarrow> WaveGroup \<Rightarrow> bool" where
  \<comment> \<open>Whether an issue of \<open>a\<close> has its parent among the issues of \<open>b\<close>.\<close>
  "depends_on dm a b =
     list_ex (\<lambda>issueA. list_ex (\<lambda>issueB.
                case dm (issue_id issueA) of None \<Rightarrow> False
                | Some ps \<Rightarrow> issue_id issueB \<in> ps) (group_issues b)) (group_issues a)"

definition dependency_compare :: "(string \<rightharpoonup> string set) \<Rightarrow> WaveGroup \<Rightarrow> WaveGroup \<Rightarrow> int" where
  "dependency_compare dm a b =
     (let aDependsOnB = depends_on dm a b; bDependsOnA = depends_on dm b a
      in if aDependsOnB \<and> \<not> bDependsOnA then 1
         else if bDependsOnA \<and> \<not> aDependsOnB then - 1
         else 0)"

type_synonym group_sort = "(WaveGroup \<Rightarrow> WaveGroup \<Rightarrow> int) \<Rightarrow> WaveGroup list \<Rightarrow> WaveGroup list"

definition orderByDependencies :: "group_sort \<Rightarrow> WaveGroup list \<Rightarrow> Issue list \<Rightarrow> WaveGroup list" where
  \<comment> \<open>\<open>[...groups].sort(compare)\<close>: the comparator is not an order in general, and the
      host's sort is the parameter \<open>srt\<close>.\<close>
  "orderByDependencies srt groups issues = srt (dependency_compare (dependencyMap issues)) groups"

fun insert_by :: "('a \<Rightarrow> 'a \<Rightarrow> int) \<Rightarrow> 'a \<Rightarrow> 'a list \<Rightarrow> 'a list" where
  "insert_by cmp x [] = [x]"
| "insert_by cmp x (y # ys) = (if cmp x y \<le> 0 then x # y # ys else y # insert_by cmp x ys)"

definition insertion_sort :: "('a \<Rightarrow> 'a \<Rightarrow> int) \<Rightarrow> 'a list \<Rightarrow> 'a list" where
  \<comment> \<open>A stable sort by a comparator: the one the examples pass for \<open>srt\<close>.\<close>
  "insertion_sort cmp xs = foldr (insert_by cmp) xs []"

subsection \<open>Step 4: from groups to waves\<close>

definition sub_group :: "WaveGroup \<Rightarrow> Issue list \<Rightarrow> WaveGroup" where
  \<comment> \<open>The sub-group \<open>splitGroupIfNeeded\<close> pushes for the issues gathered so far.\<close>
  "sub_group grp currentIssues =
     \<lparr> group_issues = currentIssues, sharedFiles = {}, similarity = similarity grp \<rparr>"

definition split_step ::
  "js_host \<Rightarrow> EstimationConfig \<Rightarrow> OrganizerConfig \<Rightarrow> (string \<rightharpoonup> CodebaseContext) \<Rightarrow> WaveGroup
     \<Rightarrow> WaveGroup list \<times> Issue list \<times> int \<Rightarrow> Issue \<Rightarrow> WaveGroup list \<times> Issue list \<times> int" where
  \<comment> \<open>One turn of the loop of \<open>splitGroupIfNeeded\<close>, on \<open>subGroups\<close>, \<open>currentIssues\<close> and
      \<open>currentTokens\<close>. The context written out there for an issue without one is that
      of \<open>createEmptyContext\<close>.\<close>
  "split_step h ecfg cfg contexts grp st issue =
     (case st of (subGroups, currentIssues, currentTokens) \<Rightarrow>
        let issueEstimate = estimate_issue h ecfg issue (context_or_empty contexts issue)
        in if of_nat (length currentIssues) \<ge> maxIssuesPerWave cfg
              \<or> (of_int (currentTokens + est_total issueEstimate) > tokenBudgetPerWave cfg
                  \<and> length currentIssues > 0)
           then (subGroups @ [sub_group grp currentIssues], [issue], est_total issueEstimate)
           else (subGroups, currentIssues @ [issue], currentTokens + est_total issueEstimate))"

definition splitGroupIfNeeded ::
  "js_host \<Rightarrow> EstimationConfig \<Rightarrow> OrganizerConfig \<Rightarrow> WaveGroup \<Rightarrow> (string \<rightharpoonup> CodebaseContext)
     \<Rightarrow> WaveGroup list" where
  "splitGroupIfNeeded h ecfg cfg grp contexts =
     (if of_nat (length (group_issues grp)) \<le> maxIssuesPerWave cfg
         \<and> of_int (est_total (estimateWave h ecfg (group_issues grp) contexts))
               \<le> tokenBudgetPerWave cfg
      then [grp]
      else case foldl (split_step h ecfg cfg contexts grp) ([], [], 0) (group_issues grp) of
             (subGroups, currentIssues, currentTokens) \<Rightarrow>
               if length currentIssues > 0 then subGroups @ [sub_group grp currentIssues]
               else subGroups)"

fun count_label :: "(string \<times> nat) list \<Rightarrow> string \<Rightarrow> (string \<times> nat) list" where
  \<comment> \<open>\<open>labelCounts.set(name, (labelCounts.get(name) || 0) + 1)\<close> on a \<open>Map\<close>, which keeps
      its keys in the order they were first set.\<close>
  "count_label [] name = [(name, 1)]"
| "count_label ((k, n) # kvs) name =
     (if k = name then (k, n + 1) # kvs else (k, n) # count_label kvs name)"

definition capitalize :: "string \<Rightarrow> string" where
  "capitalize str = (case str of [] \<Rightarrow> [] | c # cs \<Rightarrow> to_upper c # cs)"

definition defaultNames :: "string list" where
  "defaultNames = [''Foundation'', ''Core Features'', ''Integration'', ''Enhancement'',
                   ''Polish'', ''Finalization'']"

definition generateWaveName :: "js_host \<Rightarrow> Issue list \<Rightarrow> nat \<Rightarrow> string" where
  "generateWaveName h issues waveNumber =
     (let labelCounts = foldl (\<lambda>m issue. foldl count_label m (map label_name (labels issue)))
                          [] issues;
          (topLabel, topCount) =
             foldl (\<lambda>(tl, tc) (label, count). if count > tc then (label, count) else (tl, tc))
                   ([], 0) labelCounts
      in if topLabel \<noteq> [] \<and> of_nat topCount \<ge> js_div (of_nat (length issues)) 2
         then capitalize topLabel
         else if 1 \<le> waveNumber \<and> waveNumber \<le> length defaultNames
         then defaultNames ! (waveNumber - 1)
         else ''Wave '' @ number_to_string h (of_nat waveNumber))"

definition generateWaveDescription :: "js_host \<Rightarrow> WaveGroup \<Rightarrow> string" where
  "generateWaveDescription h grp =
     ''Issues: '' @ join '', '' (map issue_identifier (group_issues grp)) @ '' (''
       @ number_to_string h (of_int (js_round (js_mul (similarity grp) 100)))
       @ ''% context overlap)''"

definition findWaveDependencies :: "Issue list \<Rightarrow> Wave list \<Rightarrow> nat list" where
  \<comment> \<open>A \<open>Set\<close> of wave numbers, spread and sorted by their difference.\<close>
  "findWaveDependencies issues existingWaves =
     sort (remdups (concat (map (\<lambda>issue.
       case parent issue of
         None \<Rightarrow> []
       | Some p \<Rightarrow> map wave_number
                    (filter (\<lambda>w. list_ex (\<lambda>i. issue_id i = p) (wave_issues w)) existingWaves))
       issues)))"

definition isParallelizable :: "Issue list \<Rightarrow> bool" where
  "isParallelizable issues =
     (\<not> list_ex (\<lambda>issue. case parent issue of None \<Rightarrow> False
                          | Some p \<Rightarrow> p \<in> set (map issue_id issues)) issues)"

definition add_wave ::
  "js_host \<Rightarrow> EstimationConfig \<Rightarrow> (string \<rightharpoonup> CodebaseContext) \<Rightarrow> Wave list \<times> nat \<Rightarrow> WaveGroup
     \<Rightarrow> Wave list \<times> nat" where
  \<comment> \<open>The body of the inner loop of \<open>groupsToWaves\<close>, on \<open>waves\<close> and \<open>waveNumber\<close>.\<close>
  "add_wave h ecfg contexts st subGroup =
     (case st of (waves, waveNumber) \<Rightarrow>
        (waves @ [\<lparr> wave_number = waveNumber,
                     wave_name = generateWaveName h (group_issues subGroup) waveNumber,
                     wave_description = generateWaveDescription h subGroup,
                     wave_issues = group_issues subGroup,
                     tokenEstimate = estimateWave h ecfg (group_issues subGroup) contexts,
                     agents = [],
                     dependencies = findWaveDependencies (group_issues subGroup) waves,
                     parallelizable = isParallelizable (group_issues subGroup) \<rparr>],
         waveNumber + 1))"

definition groupsToWaves ::
  "js_host \<Rightarrow> EstimationConfig \<Rightarrow> OrganizerConfig \<Rightarrow> WaveGroup list
     \<Rightarrow> (string \<rightharpoonup> CodebaseContext) \<Rightarrow> Wave list" where
  "groupsToWaves h ecfg cfg groups contexts =
     fst (foldl (\<lambda>st grp. foldl (add_wave h ecfg contexts) st
                              (splitGroupIfNeeded h ecfg cfg grp contexts))
                ([], 1) groups)"

subsection \<open>Step 5: agent assignment\<close>

definition security_signal :: "string list \<Rightarrow> string \<Rightarrow> bool" where
  "security_signal lbls txt =
     (list_ex (\<lambda>l. l \<in> set [''security'', ''auth'', ''authentication'', ''vulnerability'']) lbls
      \<or> rx_test_i (alts ''security'' [''auth'', ''encrypt'', ''credential'', ''permission'',
                      ''access control'', ''xss'', ''sql injection'', ''csrf'']) txt)"

definition frontend_signal :: "string list \<Rightarrow> string \<Rightarrow> bool" where
  "frontend_signal lbls txt =
     (list_ex (\<lambda>l. l \<in> set [''frontend'', ''ui'', ''ux'', ''component'', ''react'', ''vue'',
                              ''css'']) lbls
      \<or> rx_test_i (alts ''component'' [''ui'', ''ux'', ''react'', ''vue'', ''angular'', ''css'',
                      ''style'', ''layout'', ''responsive'', ''accessibility'']) txt)"

definition backend_signal :: "string list \<Rightarrow> string \<Rightarrow> bool" where
  "backend_signal lbls txt =
     (list_ex (\<lambda>l. l \<in> set [''backend'', ''api'', ''database'', ''server'']) lbls
      \<or> rx_test_i (alts ''api'' [''endpoint'', ''database'', ''query'', ''migration'', ''server'',
                      ''graphql'', ''rest'']) txt)"

definition devops_signal :: "string list \<Rightarrow> string \<Rightarrow> bool" where
  "devops_signal lbls txt =
     (list_ex (\<lambda>l. l \<in> set [''devops'', ''ci'', ''cd'', ''infrastructure'', ''deployment'']) lbls
      \<or> rx_test_i (alts ''ci/cd'' [''pipeline'', ''deploy'', ''docker'', ''kubernetes'',
                      ''terraform'', ''aws'', ''gcp'', ''azure'']) txt)"

definition test_signal :: "string list \<Rightarrow> string \<Rightarrow> bool" where
  "test_signal lbls txt =
     (list_ex (\<lambda>l. l \<in> set [''testing'', ''test'', ''qa'', ''e2e'']) lbls
      \<or> rx_test_i (alts ''test'' [''coverage'', ''e2e'', ''integration test'', ''unit test'',
                      ''assertion'']) txt)"

definition documentation_signal :: "string list \<Rightarrow> string \<Rightarrow> bool" where
  "documentation_signal lbls txt =
     (list_ex (\<lambda>l. l \<in> set [''documentation'', ''docs'', ''readme'']) lbls
      \<or> rx_test_i (alts ''documentation'' [''readme'', ''guide'', ''tutorial'', ''api doc'']) txt)"

definition research_signal :: "string list \<Rightarrow> string \<Rightarrow> bool" where
  "research_signal lbls txt =
     (list_ex (\<lambda>l. l \<in> set [''spike'', ''research'', ''investigation'', ''exploration'']) lbls
      \<or> rx_test_i (alts ''research'' [''investigate'', ''explore'', ''prototype'', ''poc'',
                      ''proof of concept'']) txt)"

definition agent_text :: "Issue \<Rightarrow> string" where
  "agent_text issue = toLowerCase (title issue @ '' '' @ description issue)"

definition agent_labels :: "Issue \<Rightarrow> string list" where
  "agent_labels issue = map (\<lambda>l. toLowerCase (label_name l)) (labels issue)"

definition inferAgentType :: "Issue \<Rightarrow> AgentType" where
  "inferAgentType issue =
     (let txt = agent_text issue; lbls = agent_labels issue
      in if security_signal lbls txt then SecuritySpecialist
         else if frontend_signal lbls txt then FrontendDeveloper
         else if backend_signal lbls txt then BackendDeveloper
         else if devops_signal lbls txt then DevopsEngineer
         else if test_signal lbls txt then TestEngineer
         else if documentation_signal lbls txt then DocumentationWriter
         else if research_signal lbls txt then Researcher
         else GeneralPurpose)"

fun generateAgentRationale :: "Issue \<Rightarrow> AgentType \<Rightarrow> string" where
  "generateAgentRationale issue SecuritySpecialist = ''Issue involves security-sensitive operations''"
| "generateAgentRationale issue BackendDeveloper = ''Issue focuses on API/database/server-side work''"
| "generateAgentRationale issue FrontendDeveloper = ''Issue involves UI components or user experience''"
| "generateAgentRationale issue TestEngineer = ''Issue is primarily about testing coverage''"
| "generateAgentRationale issue DevopsEngineer = ''Issue involves CI/CD or infrastructure''"
| "generateAgentRationale issue DocumentationWriter = ''Issue focuses on documentation updates''"
| "generateAgentRationale issue Researcher = ''Issue requires investigation or prototyping''"
| "generateAgentRationale issue GeneralPurpose = ''Issue spans multiple domains''"

definition assignAgents :: "Issue list \<Rightarrow> AgentAssignment list" where
  "assignAgents issues =
     map (\<lambda>issue. let agent = inferAgentType issue
                   in \<lparr> issueId = issue_id issue, issueIdentifier = issue_identifier issue,
                        agentType = agent,
                        rationale = generateAgentRationale issue agent \<rparr>) issues"

definition organize ::
  "js_host \<Rightarrow> group_sort \<Rightarrow> EstimationConfig \<Rightarrow> OrganizerConfig \<Rightarrow> Issue list
     \<Rightarrow> (string \<rightharpoonup> CodebaseContext) \<Rightarrow> Wave list" where
  "organize h srt ecfg cfg issues contexts =
     (if length issues = 0 then []
      else let overlapMatrix = calculateOverlapMatrix issues contexts;
               groups = groupByContext cfg issues overlapMatrix;
               orderedGroups = (if respectDependencies cfg
                                then orderByDependencies srt groups issues else groups);
               waves = groupsToWaves h ecfg cfg orderedGroups contexts
           in map (\<lambda>wave. wave \<lparr> agents := assignAgents (wave_issues wave) \<rparr>) waves)"

section \<open>Risk predictor (lib/risk-predictor)\<close>

datatype RiskCategory =
    external_dependency | breaking_change | integration | performance | security
  | data_integrity | resource_constraint | timeline

datatype RiskLikelihood = LikelihoodLow | LikelihoodMedium | LikelihoodHigh

datatype RiskImpact = ImpactLow | ImpactMedium | ImpactHigh | ImpactCritical

record Risk =
  risk_id :: string
  category :: RiskCategory
  risk_issueId :: string
  risk_issueIdentifier :: string
  risk_description :: string
  likelihood :: RiskLikelihood
  impact :: RiskImpact
  mitigation :: string
  affectedIssues :: "string list option"
  suggestedWaveAdjustment :: "string option"

record RiskPattern =
  pattern_category :: RiskCategory
  pattern_keywords :: "string list"
  filePatterns :: "regex list"
  descriptionPatterns :: "regex list"
  defaultLikelihood :: RiskLikelihood
  defaultImpact :: RiskImpact
  mitigationTemplate :: string

text \<open>
  The fields \<open>category\<close> and \<open>keywords\<close> of a \<open>RiskPattern\<close> are \<open>pattern_category\<close> and
  \<open>pattern_keywords\<close>; those of a \<open>Risk\<close> that an \<open>AgentAssignment\<close> or an \<open>Issue\<close> also has
  carry the prefix \<open>risk_\<close>.
\<close>

definition ws :: regex where
  \<comment> \<open>\<open>\s+\<close>\<close>
  "ws = Plus Whitespace"

definition RISK_PATTERNS :: "RiskPattern list" where
  "RISK_PATTERNS = [
     \<lparr> pattern_category = external_dependency,
       pattern_keywords = [''api'', ''external'', ''third-party'', ''integration'', ''webhook'',
                   ''oauth'', ''sdk''],
       filePatterns = [Lit ''api/'', Lit ''integrations/'', Lit ''external/'', Lit ''clients/''],
       descriptionPatterns = [
         seqs (Lit ''call'') [Opt (Lit ''s''), ws, alts ''external'' [''third-party'', ''remote'']],
         seqs (Lit ''integrat'') [alts ''e'' [''ion''], ws, Lit ''with''],
         seqs (Lit ''api'') [ws, alts ''call'' [''request'', ''endpoint'']],
         alts ''oauth'' [''webhook'', ''stripe'', ''github'', ''linear'']],
       defaultLikelihood = LikelihoodMedium,
       defaultImpact = ImpactHigh,
       mitigationTemplate = ''Add fallback mechanism, implement retry logic with exponential backoff, cache responses where possible'' \<rparr>,
     \<lparr> pattern_category = breaking_change,
       pattern_keywords = [''schema'', ''migration'', ''refactor'', ''rename'', ''restructure'',
                   ''breaking''],
       filePatterns = [Lit ''schema'', Lit ''migrations/'', Lit ''db/'', Lit ''models/''],
       descriptionPatterns = [
         seqs (Lit ''chang'') [alts ''e'' [''ing''], ws, alts ''schema'' [''database'', ''table'']],
         seqs (Lit ''migrat'') [alts ''e'' [''ion'']],
         seqs (Lit ''breaking'') [ws, Lit ''change''],
         Lit ''refactor'',
         seqs (Lit ''renam'') [alts ''e'' [''ing'']]],
       defaultLikelihood = LikelihoodHigh,
       defaultImpact = ImpactMedium,
       mitigationTemplate = ''Version the schema, create migration script, add backwards compatibility layer, test rollback procedure'' \<rparr>,
     \<lparr> pattern_category = integration,
       pattern_keywords = [''depends'', ''dependency'', ''requires'', ''blocks'', ''after'', ''before''],
       filePatterns = [],
       descriptionPatterns = [
         seqs (Lit ''depends'') [ws, Lit ''on''],
         seqs (Lit ''require'') [Opt (Lit ''s''), ws, alts ''completion'' [''implementation'']],
         seqs (Lit ''after'') [ws, Star AnyChar, ws, Lit ''is'', ws, alts ''done'' [''complete'']],
         seqs (Lit ''block'') [Opt (Lit ''s''), ws, Lit ''by''],
         Lit ''prerequisite''],
       defaultLikelihood = LikelihoodMedium,
       defaultImpact = ImpactHigh,
       mitigationTemplate = ''Define interface contract first, create mock implementations for parallel development, establish clear handoff criteria'' \<rparr>,
     \<lparr> pattern_category = performance,
       pattern_keywords = [''performance'', ''scale'', ''optimize'', ''cache'', ''load'', ''concurrent''],
       filePatterns = [Lit ''cache/'', Lit ''performance/'', Lit ''workers/''],
       descriptionPatterns = [
         Lit ''performance'',
         seqs (Lit ''scal'') [alts ''e'' [''ability'', ''ing'']],
         seqs (Lit ''optimi'') [alts ''ze'' [''zation'']],
         alts ''slow'' [''fast'', ''speed''],
         alts ''concurrent'' [''parallel''],
         seqs (Lit ''large'') [ws, alts ''data'' [''dataset'', ''volume'']]],
       defaultLikelihood = LikelihoodMedium,
       defaultImpact = ImpactMedium,
       mitigationTemplate = ''Add performance benchmarks, implement caching strategy, set up monitoring alerts, define acceptable thresholds'' \<rparr>,
     \<lparr> pattern_category = security,
       pattern_keywords = [''security'', ''auth'', ''permission'', ''encrypt'', ''vulnerability'',
                   ''credential''],
       filePatterns = [Lit ''auth/'', Lit ''security/'', Lit ''permissions/''],
       descriptionPatterns = [
         Lit ''security'',
         seqs (Lit ''auth'') [Opt (alts ''entication'' [''orization''])],
         Alt (Lit ''permission'') (seqs (Lit ''access'') [ws, Lit ''control'']),
         alts ''encrypt'' [''decrypt''],
         seqs (Lit ''vulnerabilit'') [alts ''y'' [''ies'']],
         alts ''credential'' [''secret'', ''key'']],
       defaultLikelihood = LikelihoodMedium,
       defaultImpact = ImpactCritical,
       mitigationTemplate = ''Conduct security review, add threat model, implement defense in depth, ensure secrets management compliance'' \<rparr>,
     \<lparr> pattern_category = data_integrity,
       pattern_keywords = [''data'', ''consistency'', ''transaction'', ''atomic'', ''rollback''],
       filePatterns = [Lit ''db/'', Lit ''repositories/'', Lit ''transactions/''],
       descriptionPatterns = [
         seqs (Lit ''data'') [ws, alts ''integrity'' [''consistency'']],
         Lit ''transaction'',
         Lit ''atomic'',
         Lit ''rollback'',
         seqs (Lit ''race'') [ws, Lit ''condition'']],
       defaultLikelihood = LikelihoodLow,
       defaultImpact = ImpactHigh,
       mitigationTemplate = ''Use database transactions, implement idempotency, add data validation layer, create rollback procedures'' \<rparr>,
     \<lparr> pattern_category = resource_constraint,
       pattern_keywords = [''memory'', ''cpu'', ''disk'', ''quota'', ''limit'', ''timeout''],
       filePatterns = [],
       descriptionPatterns = [
         alts ''memory'' [''cpu'', ''disk''],
         alts ''quota'' [''limit''],
         Lit ''timeout'',
         seqs (Lit ''resource'') [ws, alts ''constraint'' [''limit'']],
         seqs (Lit ''out'') [ws, Lit ''of'', ws, alts ''memory'' [''space'']]],
       defaultLikelihood = LikelihoodLow,
       defaultImpact = ImpactMedium,
       mitigationTemplate = ''Add resource monitoring, implement graceful degradation, set up alerts, define resource budgets'' \<rparr>,
     \<lparr> pattern_category = timeline,
       pattern_keywords = [''deadline'', ''urgent'', ''critical'', ''blocker'', ''priority''],
       filePatterns = [],
       descriptionPatterns = [
         Lit ''deadline'',
         alts ''urgent'' [''critical'', ''blocker''],
         seqs (Lit ''time'') [ws, alts ''sensitive'' [''critical'']],
         seqs (Lit ''must'') [ws, Lit ''be'', ws, alts ''done'' [''complete'']]],
       defaultLikelihood = LikelihoodMedium,
       defaultImpact = ImpactMedium,
       mitigationTemplate = ''Break into smaller deliverables, identify MVP scope, establish checkpoints, prepare contingency plan'' \<rparr>]"

text \<open>
  The predictor is handed the issues and contexts of the data model above and reads
  them as untyped objects. \<open>issue.labels.join(' ')\<close> converts each element to a string,
  and a \<open>Label\<close> is an object: its text is \<open>[object Object]\<close>. \<open>context.filePaths\<close> is a
  property a \<open>CodebaseContext\<close> does not have: reading it gives \<open>undefined\<close> (\<open>None\<close>).
  \<open>issue.priority\<close> is compared as the string it is.
\<close>

definition label_to_string :: "Label \<Rightarrow> string" where
  "label_to_string l = ''[object Object]''"

definition filePaths :: "CodebaseContext \<Rightarrow> string list option" where
  "filePaths ctx = None"

definition risk_content :: "Issue \<Rightarrow> string" where
  \<comment> \<open>The text \<open>content\<close> of \<open>analyzeIssue\<close>; \<open>x || ''\<close> on a string is the string.\<close>
  "risk_content issue =
     toLowerCase (title issue @ '' '' @ description issue @ '' ''
                    @ join '' '' (map label_to_string (labels issue)))"

definition risk_files :: "CodebaseContext option \<Rightarrow> string list" where
  \<comment> \<open>\<open>context?.filePaths || []\<close>\<close>
  "risk_files ctx =
     (case ctx of None \<Rightarrow> []
      | Some c \<Rightarrow> (case filePaths c of None \<Rightarrow> [] | Some fs \<Rightarrow> fs))"

definition high_priority :: "Issue \<Rightarrow> bool" where
  \<comment> \<open>\<open>issue.priority === 'urgent' || issue.priority === 'critical'\<close>\<close>
  "high_priority issue =
     (priority_name (priority issue) = ''urgent'' \<or> priority_name (priority issue) = ''critical'')"

fun categoryDescriptions :: "RiskCategory \<Rightarrow> string" where
  "categoryDescriptions external_dependency = ''relies on external service/API''"
| "categoryDescriptions breaking_change = ''may introduce breaking changes''"
| "categoryDescriptions integration = ''has dependencies on other issues''"
| "categoryDescriptions performance = ''may impact system performance''"
| "categoryDescriptions security = ''has security implications''"
| "categoryDescriptions data_integrity = ''may affect data consistency''"
| "categoryDescriptions resource_constraint = ''may hit resource limits''"
| "categoryDescriptions timeline = ''has timeline constraints''"

definition generateRiskDescription :: "RiskPattern \<Rightarrow> Issue \<Rightarrow> CodebaseContext option \<Rightarrow> string" where
  "generateRiskDescription pattern issue ctx =
     (let baseDescription = categoryDescriptions (pattern_category pattern);
          joined = (case ctx of None \<Rightarrow> []
                    | Some c \<Rightarrow> (case filePaths c of None \<Rightarrow> []
                                 | Some fs \<Rightarrow> join '', '' (take 3 fs)));
          files = (if joined = [] then ''multiple files'' else joined)
      in issue_identifier issue @ '' '' @ baseDescription @ '' (affects: '' @ files @ '')'')"

definition generateMitigation :: "RiskPattern \<Rightarrow> Issue \<Rightarrow> CodebaseContext option \<Rightarrow> string" where
  "generateMitigation pattern issue ctx =
     (let m0 = mitigationTemplate pattern;
          paths = (case ctx of None \<Rightarrow> [] | Some c \<Rightarrow> (case filePaths c of None \<Rightarrow> []
                                                       | Some fs \<Rightarrow> fs));
          testFiles = filter (rx_test (seqs (Lit ''.'') [alts ''test'' [''spec''], Lit ''.'',
                                              alts ''ts'' [''js'']])) paths;
          m1 = (if length paths \<noteq> 0 \<and> length testFiles = 0
                then m0 @ ''. Add test coverage for affected files'' else m0)
      in if high_priority issue then m1 @ ''. Consider spike/POC first given high priority''
         else m1)"

definition analyze_step ::
  "js_host \<Rightarrow> Issue \<Rightarrow> CodebaseContext option \<Rightarrow> nat \<Rightarrow> Risk list \<Rightarrow> RiskPattern \<Rightarrow> Risk list" where
  \<comment> \<open>The body of the loop of \<open>analyzeIssue\<close> over the patterns, on the array \<open>risks\<close>.\<close>
  "analyze_step h issue ctx startId risks pattern =
     (let content = risk_content issue;
          files = risk_files ctx;
          hasKeyword = list_ex (\<lambda>kw. includes_str content kw) (pattern_keywords pattern);
          hasFileMatch = list_ex (\<lambda>fp. list_ex (\<lambda>f. rx_test fp f) files) (filePatterns pattern);
          hasDescriptionMatch = list_ex (\<lambda>dp. rx_test_i dp content) (descriptionPatterns pattern)
      in if hasKeyword \<or> hasFileMatch \<or> hasDescriptionMatch
         then let evidenceCount = (if hasKeyword then 1 else 0) + (if hasFileMatch then 1 else 0)
                                    + (if hasDescriptionMatch then 1 else (0::nat));
                  lk = (if evidenceCount \<ge> 3 then LikelihoodHigh
                        else if evidenceCount = 1 \<and> defaultLikelihood pattern = LikelihoodHigh
                        then LikelihoodMedium
                        else defaultLikelihood pattern);
                  im = (if high_priority issue
                        then (if defaultImpact pattern = ImpactMedium then ImpactHigh
                              else if defaultImpact pattern = ImpactHigh then ImpactCritical
                              else defaultImpact pattern)
                        else defaultImpact pattern)
              in risks @ [\<lparr> risk_id = ''RISK-'' @ number_to_string h
                                          (of_nat (startId + length risks)),
                             category = pattern_category pattern,
                             risk_issueId = issue_id issue,
                             risk_issueIdentifier = issue_identifier issue,
                             risk_description = generateRiskDescription pattern issue ctx,
                             likelihood = lk,
                             impact = im,
                             mitigation = generateMitigation pattern issue ctx,
                             affectedIssues = None,
                             suggestedWaveAdjustment = None \<rparr>]
         else risks)"

definition analyzeIssue ::
  "js_host \<Rightarrow> RiskPattern list \<Rightarrow> Issue \<Rightarrow> CodebaseContext option \<Rightarrow> nat \<Rightarrow> Risk list" where
  "analyzeIssue h patterns issue ctx startId =
     foldl (analyze_step h issue ctx startId) [] patterns"

fun impactWeights :: "RiskImpact \<Rightarrow> nat" where
  "impactWeights ImpactLow = 1"
| "impactWeights ImpactMedium = 2"
| "impactWeights ImpactHigh = 4"
| "impactWeights ImpactCritical = 8"

fun likelihoodWeights :: "RiskLikelihood \<Rightarrow> nat" where
  "likelihoodWeights LikelihoodLow = 1"
| "likelihoodWeights LikelihoodMedium = 2"
| "likelihoodWeights LikelihoodHigh = 3"

definition calculateRiskScore :: "Risk list \<Rightarrow> int" where
  "calculateRiskScore risks =
     (if length risks = 0 then 0
      else let totalScore = foldl (\<lambda>t risk. t + impactWeights (impact risk)
                                            * likelihoodWeights (likelihood risk)) 0 risks;
               maxScore = 10 * 8 * 3
           in min 100 (js_round (js_mul (js_div (of_nat totalScore) (of_nat maxScore)) 100)))"

section \<open>Definitions used to state the properties\<close>

definition issue_p1 :: Issue where
  \<comment> \<open>An issue of priority P1-High without labels, parent or estimate, for the examples.\<close>
  "issue_p1 = \<lparr> issue_id = ''1'', issue_identifier = ''SMI-1'', title = ''Hello'',
     description = [], priority = P1_High, labels = [], parent = None, estimate = None \<rparr>"


definition risk_weight_sum :: "Risk list \<Rightarrow> nat" where
  \<comment> \<open>The sum of impact weight times likelihood weight over a list of risks.\<close>
  "risk_weight_sum risks =
     sum_list (map (\<lambda>r. impactWeights (impact r) * likelihoodWeights (likelihood r)) risks)"

definition sample_risk :: "RiskImpact \<Rightarrow> RiskLikelihood \<Rightarrow> Risk" where
  \<comment> \<open>A risk of a given impact and likelihood, for the examples.\<close>
  "sample_risk im lk = \<lparr> risk_id = ''RISK-1'', category = security, risk_issueId = ''1'',
     risk_issueIdentifier = ''SMI-1'', risk_description = [], likelihood = lk, impact = im,
     mitigation = [], affectedIssues = None, suggestedWaveAdjustment = None \<rparr>"

definition risks_138 :: "Risk list" where
  \<comment> \<open>Ten risks whose weights add up to 138: eight of weight 16, one of 8, one of 2.\<close>
  "risks_138 = replicate 8 (sample_risk ImpactCritical LikelihoodMedium)
                 @ [sample_risk ImpactHigh LikelihoodMedium, sample_risk ImpactMedium LikelihoodLow]"

definition agent_precedence :: "((string list \<Rightarrow> string \<Rightarrow> bool) \<times> AgentType) list" where
  \<comment> \<open>The categories of agent inference, in the order the property names them, each with the signal that selects it.\<close>
  "agent_precedence =
     [(security_signal, SecuritySpecialist), (frontend_signal, FrontendDeveloper),
      (backend_signal, BackendDeveloper), (devops_signal, DevopsEngineer),
      (test_signal, TestEngineer), (documentation_signal, DocumentationWriter),
      (research_signal, Researcher)]"

fun first_match :: "((string list \<Rightarrow> string \<Rightarrow> bool) \<times> AgentType) list \<Rightarrow> string list \<Rightarrow> string
                      \<Rightarrow> AgentType" where
  \<comment> \<open>The agent of the first entry whose signal holds, and general-purpose when none does.\<close>
  "first_match [] lbls txt = GeneralPurpose"
| "first_match ((signal, agent) # rest) lbls txt =
     (if signal lbls txt then agent else first_match rest lbls txt)"

definition issue_xss :: Issue where
  \<comment> \<open>An issue whose title names both a security and a frontend matter.\<close>
  "issue_xss = \<lparr> issue_id = ''2'', issue_identifier = ''SMI-2'',
     title = ''Fix XSS in React component'', description = [], priority = P2_Medium,
     labels = [], parent = None, estimate = None \<rparr>"

definition issue_plain :: Issue where
  \<comment> \<open>An issue that matches no signal.\<close>
  "issue_plain = \<lparr> issue_id = ''3'', issue_identifier = ''SMI-3'',
     title = ''Hello'', description = [], priority = P2_Medium,
     labels = [], parent = None, estimate = None \<rparr>"

definition issue_api_p0 :: Issue where
  \<comment> \<open>An issue of the highest priority whose text contains the keyword api.\<close>
  "issue_api_p0 = \<lparr> issue_id = ''4'', issue_identifier = ''SMI-4'', title = ''api'',
     description = [], priority = P0_Critical, labels = [], parent = None, estimate = None \<rparr>"

definition issue_typo :: Issue where
  \<comment> \<open>An issue whose text matches no risk pattern.\<close>
  "issue_typo = \<lparr> issue_id = ''5'', issue_identifier = ''SMI-5'', title = ''Fix typo'',
     description = [], priority = P2_Medium, labels = [], parent = None, estimate = None \<rparr>"

definition context_api_file :: CodebaseContext where
  \<comment> \<open>A context whose one touched file lies under api/.\<close>
  "context_api_file = \<lparr> filesLikelyTouched =
       [\<lparr> path = ''src/api/users.ts'', lines = 100, language = ''typescript'',
          complexity = Medium \<rparr>],
     relatedFiles = [], totalLines = 100, avgComplexity = Medium \<rparr>"





definition file_a :: FileInfo where
  "file_a = \<lparr> path = ''src/a.ts'', lines = 100, language = ''typescript'', complexity = Medium \<rparr>"

definition file_b :: FileInfo where
  "file_b = \<lparr> path = ''src/b.ts'', lines = 100, language = ''typescript'', complexity = Medium \<rparr>"

definition touching :: "FileInfo list \<Rightarrow> CodebaseContext" where
  \<comment> \<open>A context that touches the given files and has no related file.\<close>
  "touching fs = \<lparr> filesLikelyTouched = fs, relatedFiles = [], totalLines = 100,
                    avgComplexity = Medium \<rparr>"

definition issue_two :: Issue where
  \<comment> \<open>A second issue, for the examples.\<close>
  "issue_two = \<lparr> issue_id = ''2'', issue_identifier = ''SMI-2'', title = ''World'',
     description = [], priority = P1_High, labels = [], parent = None, estimate = None \<rparr>"

definition contexts_sharing :: "string \<rightharpoonup> CodebaseContext" where
  \<comment> \<open>Two issues that share one of two distinct touched files.\<close>
  "contexts_sharing = [''1'' \<mapsto> touching [file_a, file_b], ''2'' \<mapsto> touching [file_a]]"



section \<open>Facts about doubles\<close>

lemma expo_up_bounds: "1 \<le> x \<Longrightarrow> 2 ^ expo_up x \<le> x \<and> x < 2 ^ Suc (expo_up x)"
proof (induction x rule: expo_up.induct)
  case (1 x)
  show ?case
  proof (cases "x < 2")
    case True
    with 1 show ?thesis by (simp add: expo_up.simps)
  next
    case False
    then have "1 \<le> x / 2" by simp
    with 1 False have "2 ^ expo_up (x / 2) \<le> x / 2 \<and> x / 2 < 2 ^ Suc (expo_up (x / 2))"
      by blast
    with False show ?thesis by (simp add: expo_up.simps [of x])
  qed
qed

lemma expo_bounds:
  assumes "0 < x"
  shows "2 powi expo x \<le> x" and "x < 2 powi (expo x + 1)"
proof -
  have "2 powi expo x \<le> x \<and> x < 2 powi (expo x + 1)"
  proof (cases "1 \<le> x")
    case True
    then show ?thesis
      using expo_up_bounds [of x] by (simp add: expo_def power_int_add_1)
  next
    case False
    define k where "k = expo_up (1 / x)"
    from False assms have "1 \<le> 1 / x" by simp
    then have b: "2 ^ k \<le> 1 / x" "1 / x < 2 ^ Suc k"
      using expo_up_bounds [of "1 / x"] by (simp_all add: k_def)
    have p: "(0::rat) < 2 ^ k" by simp
    show ?thesis
    proof (cases "1 / x = 2 ^ k")
      case True
      then have e: "expo x = - int k" using False by (simp add: expo_def k_def)
      from True have x: "x = 1 / 2 ^ k" using assms by (simp add: field_simps)
      have "2 powi (- int k) = x" by (simp add: x power_int_minus_divide)
      moreover have "x < 2 powi (- int k + 1)"
      proof -
        have "2 powi (- int k + 1) = 2 powi (- int k) * (2::rat) powi 1"
          by (rule power_int_add) simp
        then have "2 powi (- int k + 1) = 2 powi (- int k) * (2::rat)" by simp
        also have "\<dots> = x * 2" using \<open>2 powi (- int k) = x\<close> by simp
        finally show ?thesis using assms by simp
      qed
      ultimately show ?thesis using e by simp
    next
      case ne: False
      then have e: "expo x = - int k - 1" using False by (simp add: expo_def k_def Let_def)
      from ne b have lt: "2 ^ k < 1 / x" by simp
      have "2 powi (- int k - 1) = (1 / 2 ^ Suc k :: rat)"
      proof -
        have "- int k - 1 = - int (Suc k)" by simp
        then show ?thesis by (simp only: power_int_minus_divide power_int_of_nat)
      qed
      moreover have "1 / 2 ^ Suc k < x"
        using b(2) assms by (simp add: field_simps)
      moreover have "2 powi (- int k - 1 + 1) = (1 / 2 ^ k :: rat)"
        by (simp add: power_int_minus_divide)
      moreover have "x < 1 / 2 ^ k"
        using lt assms p by (simp add: field_simps)
      ultimately show ?thesis using e by simp
    qed
  qed
  then show "2 powi expo x \<le> x" and "x < 2 powi (expo x + 1)" by simp_all
qed

lemma expo_mono:
  assumes "0 < x" "x \<le> y"
  shows "expo x \<le> expo y"
proof (rule ccontr)
  assume "\<not> expo x \<le> expo y"
  then have "expo y + 1 \<le> expo x" by simp
  then have "(2::rat) powi (expo y + 1) \<le> 2 powi expo x"
    by (intro power_int_increasing) simp_all
  also have "\<dots> \<le> x" using assms(1) by (rule expo_bounds)
  also have "\<dots> \<le> y" by fact
  also have "\<dots> < 2 powi (expo y + 1)" using assms by (intro expo_bounds) simp
  finally show False by simp
qed

lemma rne_of_int [simp]: "rne (of_int n) = n"
  by (simp add: rne_def)

lemma rne_numeral [simp]: "rne (numeral k) = numeral k"
  using rne_of_int [of "numeral k"] by simp

lemma rne_bounds: "of_int (rne y) - 1 / 2 \<le> y \<and> y \<le> of_int (rne y) + 1 / 2"
  unfolding rne_def Let_def by (auto; linarith)

lemma rne_mono:
  assumes "a \<le> b"
  shows "rne a \<le> rne b"
proof (cases "\<lfloor>a\<rfloor> = \<lfloor>b\<rfloor>")
  case True
  with assms show ?thesis
    unfolding rne_def Let_def by (auto; linarith)
next
  case False
  with assms have lt: "\<lfloor>a\<rfloor> < \<lfloor>b\<rfloor>" using floor_mono [of a b] by simp
  have "rne a \<le> \<lfloor>a\<rfloor> + 1" unfolding rne_def Let_def by auto
  moreover have "\<lfloor>b\<rfloor> \<le> rne b" unfolding rne_def Let_def by auto
  ultimately show ?thesis using lt by simp
qed

lemma rne_ge: "of_int n \<le> y \<Longrightarrow> n \<le> rne y"
  using rne_mono [of "of_int n" y] by simp

lemma rne_le: "y \<le> of_int n \<Longrightarrow> rne y \<le> n"
  using rne_mono [of y "of_int n"] by simp

lemma pow2_pos [simp]: "(0::rat) < 2 powi k"
  by (simp add: power_int_def)

lemma dbl_pos_bounds:
  assumes "0 < x"
  shows "2 powi expo x \<le> dbl_pos x" and "dbl_pos x \<le> 2 powi (expo x + 1)"
proof -
  define u :: rat where "u = 2 powi (expo x - 52)"
  have u: "0 < u" by (simp add: u_def)
  have "2 powi (52 + (expo x - 52)) = (2::rat) powi 52 * 2 powi (expo x - 52)"
    by (rule power_int_add) simp
  moreover have "52 + (expo x - 52) = expo x" by simp
  ultimately have lo: "2 powi expo x = of_int (2 ^ 52) * u"
    by (simp add: u_def)
  have "2 powi (53 + (expo x - 52)) = (2::rat) powi 53 * 2 powi (expo x - 52)"
    by (rule power_int_add) simp
  moreover have "53 + (expo x - 52) = expo x + 1" by simp
  ultimately have hi: "2 powi (expo x + 1) = of_int (2 ^ 53) * u"
    by (simp add: u_def)
  have "of_int (2 ^ 52) * u \<le> x" using expo_bounds(1) [OF assms] lo by simp
  then have "of_int (2 ^ 52) \<le> x / u" using u by (simp add: field_simps)
  then have a: "2 ^ 52 \<le> rne (x / u)" by (rule rne_ge)
  have "x \<le> of_int (2 ^ 53) * u" using expo_bounds(2) [OF assms] hi by simp
  then have "x / u \<le> of_int (2 ^ 53)" using u by (simp add: field_simps)
  then have b: "rne (x / u) \<le> 2 ^ 53" by (rule rne_le)
  have d: "dbl_pos x = of_int (rne (x / u)) * u" by (simp add: dbl_pos_def u_def Let_def)
  from a have "rat_of_int (2 ^ 52) \<le> of_int (rne (x / u))" by (simp only: of_int_le_iff)
  then show "2 powi expo x \<le> dbl_pos x"
    unfolding lo d using u by (intro mult_right_mono) simp_all
  from b have "rat_of_int (rne (x / u)) \<le> of_int (2 ^ 53)" by (simp only: of_int_le_iff)
  then show "dbl_pos x \<le> 2 powi (expo x + 1)"
    unfolding hi d using u by (intro mult_right_mono) simp_all
qed

lemma dbl_pos_mono:
  assumes "0 < x" "x \<le> y"
  shows "dbl_pos x \<le> dbl_pos y"
proof (cases "expo x = expo y")
  case True
  define u :: rat where "u = 2 powi (expo x - 52)"
  have u: "0 < u" by (simp add: u_def)
  have "x / u \<le> y / u" using assms u by (simp add: divide_right_mono)
  then have "rne (x / u) \<le> rne (y / u)" by (rule rne_mono)
  then have "rat_of_int (rne (x / u)) \<le> of_int (rne (y / u))" by simp
  then have "of_int (rne (x / u)) * u \<le> of_int (rne (y / u)) * u"
    using u by (intro mult_right_mono) simp_all
  then show ?thesis using True by (simp add: dbl_pos_def u_def Let_def)
next
  case False
  with expo_mono [OF assms] have "expo x + 1 \<le> expo y" by simp
  then have "(2::rat) powi (expo x + 1) \<le> 2 powi expo y"
    by (intro power_int_increasing) simp_all
  moreover have "dbl_pos x \<le> 2 powi (expo x + 1)" using assms(1) by (rule dbl_pos_bounds)
  moreover have "2 powi expo y \<le> dbl_pos y" using assms by (intro dbl_pos_bounds) simp
  ultimately show ?thesis by simp
qed

lemma dbl_pos_gt0: "0 < x \<Longrightarrow> 0 < dbl_pos x"
  by (rule less_le_trans [OF pow2_pos dbl_pos_bounds(1)])

lemma dbl_0 [simp]: "dbl 0 = 0"
  by (simp add: dbl_def)

lemma dbl_nonneg: "0 \<le> x \<Longrightarrow> 0 \<le> dbl x"
  using dbl_pos_gt0 [of x] by (cases "x = 0") (simp_all add: dbl_def less_imp_le)

lemma dbl_mono_nonneg: "0 \<le> x \<Longrightarrow> x \<le> y \<Longrightarrow> dbl x \<le> dbl y"
  using dbl_pos_mono [of x y] dbl_nonneg [of y]
  by (cases "x = 0") (auto simp add: dbl_def)

lemma dbl_minus: "dbl (- x) = - dbl x"
  by (simp add: dbl_def)

lemma dbl_pos_of_int:
  assumes "0 < n" "n \<le> 2 ^ 53"
  shows "dbl_pos (of_int n) = of_int n"
proof -
  define e where "e = expo (of_int n)"
  have pos: "(0::rat) < of_int n" using assms by simp
  have "2 powi e \<le> rat_of_int n" unfolding e_def using pos by (rule expo_bounds)
  also have "\<dots> \<le> of_int (2 ^ 53)" using assms(2) by (simp only: of_int_le_iff)
  also have "\<dots> = 2 powi 53" by simp
  finally have "e \<le> 53"
    using power_int_le_imp_le_exp [of "2::rat" e 53] by simp
  then obtain m where m: "53 - e = int m" using nonneg_int_cases [of "53 - e"] by auto
  define u :: rat where "u = 2 powi (e - 52)"
  show ?thesis
  proof (cases "e = 53")
    case True
    have "2 powi 53 \<le> rat_of_int n" using \<open>2 powi e \<le> rat_of_int n\<close> True by simp
    then have "rat_of_int (2 ^ 53) \<le> of_int n" by simp
    then have "2 ^ 53 \<le> n" by (simp only: of_int_le_iff)
    with assms have n: "n = 2 ^ 53" by simp
    have "dbl_pos (of_int n) = of_int (rne (of_int n / 2)) * 2"
      using True by (simp add: dbl_pos_def e_def [symmetric] Let_def)
    also have "rat_of_int n / 2 = of_int (2 ^ 52)" by (simp add: n)
    finally show ?thesis by (simp add: n)
  next
    case False
    with \<open>e \<le> 53\<close> have "0 \<le> 52 - e" by simp
    then obtain j where j: "52 - e = int j" using nonneg_int_cases by blast
    have u: "u = 1 / 2 ^ j"
    proof -
      have "e - 52 = - int j" using j by simp
      then show ?thesis by (simp add: u_def power_int_minus_divide)
    qed
    have "rat_of_int n / u = of_int (n * 2 ^ j)" by (simp add: u)
    then have "rne (rat_of_int n / u) = n * 2 ^ j" by (simp only: rne_of_int)
    then have "dbl_pos (of_int n) = of_int (n * 2 ^ j) * u"
      by (simp add: dbl_pos_def e_def [symmetric] u_def [symmetric] Let_def)
    then show ?thesis by (simp add: u)
  qed
qed

lemma dbl_of_int: "\<bar>n\<bar> \<le> 2 ^ 53 \<Longrightarrow> dbl (of_int n) = of_int n"
  using dbl_pos_of_int [of n] dbl_pos_of_int [of "- n"]
  by (cases "n = 0"; cases "0 < n") (simp_all add: dbl_def)


lemma dbl_1 [simp]: "dbl 1 = 1"
  using dbl_of_int [of 1] by simp

lemma js_sub_1_0 [simp]: "js_sub 1 0 = 1"
  by (simp add: js_sub_def)


lemma js_mul_0_left [simp]: "js_mul 0 b = 0"
  by (simp add: js_mul_def)

lemma expo_unique:
  assumes "0 < x" "2 powi e \<le> x" "x < 2 powi (e + 1)"
  shows "expo x = e"
proof (rule antisym)
  show "expo x \<le> e"
  proof (rule ccontr)
    assume "\<not> expo x \<le> e"
    then have "e + 1 \<le> expo x" by simp
    then have "(2::rat) powi (e + 1) \<le> 2 powi expo x"
      by (intro power_int_increasing) simp_all
    also have "\<dots> \<le> x" using assms(1) by (rule expo_bounds)
    finally show False using assms(3) by simp
  qed
  show "e \<le> expo x"
  proof (rule ccontr)
    assume "\<not> e \<le> expo x"
    then have "expo x + 1 \<le> e" by simp
    then have "(2::rat) powi (expo x + 1) \<le> 2 powi e"
      by (intro power_int_increasing) simp_all
    also have "\<dots> \<le> x" by fact
    finally show False using expo_bounds(2) [OF assms(1)] by simp
  qed
qed

lemma floor_rat_numeral_divide:
  "\<lfloor>(numeral a :: rat) / numeral b\<rfloor> = numeral a div numeral b"
  using floor_divide_of_int_eq [of "numeral a" "numeral b", where ?'a = rat] by simp

text \<open>
  A double is computed from the binary exponent of the number it rounds: given the
  exponent, the simplifier does the rest on numerals.
\<close>

lemma dbl_cert:
  assumes "0 < x" "2 powi e \<le> x" "x < 2 powi (e + 1)"
  shows "dbl x = of_int (rne (x / 2 powi (e - 52))) * 2 powi (e - 52)"
  using assms expo_unique [OF assms] by (simp add: dbl_def dbl_pos_def Let_def)

lemmas dbl_eval = rne_def Let_def floor_rat_numeral_divide js_mul_def js_div_def js_sub_def
  js_round_def


section \<open>Rounding\<close>

lemma js_round_of_int [simp]: "js_round (of_int n) = n"
proof -
  have "\<lfloor>rat_of_int n + 1 / 2\<rfloor> = n" by linarith
  then show ?thesis by (simp add: js_round_def)
qed

lemma js_round_0 [simp]: "js_round 0 = 0"
  using js_round_of_int [of 0] by simp

lemma js_round_numeral [simp]: "js_round (numeral n) = numeral n"
  using js_round_of_int [of "numeral n"] by simp

lemma js_round_mono: "x \<le> y \<Longrightarrow> js_round x \<le> js_round y"
  by (simp add: js_round_def floor_mono)

lemma js_round_nonneg: "0 \<le> x \<Longrightarrow> 0 \<le> js_round x"
  using js_round_mono [of 0 x] by simp

section \<open>The token estimator\<close>










text \<open>
  \<^bold>\<open>C10.\<close> On the empty list of issues \<open>estimateWave\<close> returns, for every context map, an
  estimate with total 0, the five components 0, no file analyzed, no assumption, and
  confidence low: the average of no scores is not a number and passes neither threshold.
\<close>

theorem estimateWave_empty:
  "estimateWave h cfg [] contexts =
     \<lparr> est_total = 0,
       breakdown = \<lparr> codebaseContext = 0, implementation = 0, tests = 0, review = 0,
                     documentation = 0 \<rparr>,
       confidence = ConfLow, assumptions = [], filesAnalyzed = 0 \<rparr>"
  by (simp add: estimateWave_def wave_estimates_def calculateSharedContextReduction_def
      aggregateConfidence_def breakdown_values_def)

theorem estimateWave_empty_witness:
  "est_total (estimateWave example_host DEFAULT_CONFIG [] Map.empty) = 0
   \<and> confidence (estimateWave example_host DEFAULT_CONFIG [] Map.empty) = ConfLow
   \<and> assumptions (estimateWave example_host DEFAULT_CONFIG [] Map.empty) = []"
  using estimateWave_empty [of example_host DEFAULT_CONFIG Map.empty] by simp




section \<open>The overlap matrix\<close>

lemma foldl_update_last:
  assumes "k \<in> f ` set xs"
  shows "\<exists>x \<in> set xs. f x = k \<and> foldl (\<lambda>m x. m(f x \<mapsto> g x)) m0 xs k = Some (g x)"
  using assms
proof (induction xs rule: rev_induct)
  case Nil
  then show ?case by simp
next
  case (snoc y ys)
  show ?case
  proof (cases "f y = k")
    case True
    then show ?thesis by auto
  next
    case False
    with snoc.prems have "k \<in> f ` set ys" by auto
    with snoc.IH obtain x where "x \<in> set ys" "f x = k"
      "foldl (\<lambda>m x. m(f x \<mapsto> g x)) m0 ys k = Some (g x)" by blast
    with False have "x \<in> set (ys @ [y])" "f x = k"
      "foldl (\<lambda>m x. m(f x \<mapsto> g x)) m0 (ys @ [y]) k = Some (g x)"
      by simp_all
    then show ?thesis by blast
  qed
qed

lemma overlap_row_alt:
  "overlap_row issues contexts issueA =
     foldl (\<lambda>rowMap issueB. rowMap(issue_id issueB \<mapsto>
               (if issue_id issueA = issue_id issueB then 1
                else jaccardSimilarity (getFilesForIssue issueA contexts)
                                       (getFilesForIssue issueB contexts))))
           Map.empty issues"
proof -
  have "(\<lambda>rowMap issueB.
              if issue_id issueA = issue_id issueB then rowMap(issue_id issueB \<mapsto> 1)
              else rowMap(issue_id issueB \<mapsto>
                     jaccardSimilarity (getFilesForIssue issueA contexts)
                                       (getFilesForIssue issueB contexts)))
        = (\<lambda>rowMap issueB. rowMap(issue_id issueB \<mapsto>
               (if issue_id issueA = issue_id issueB then 1
                else jaccardSimilarity (getFilesForIssue issueA contexts)
                                       (getFilesForIssue issueB contexts))))"
    by (intro ext) simp
  then show ?thesis by (simp add: overlap_row_def)
qed

lemma overlap_row_self:
  assumes "k \<in> issue_id ` set issues" "issue_id issueA = k"
  shows "overlap_row issues contexts issueA k = Some 1"
proof -
  define g where "g = (\<lambda>issueB. if issue_id issueA = issue_id issueB then (1::rat)
               else jaccardSimilarity (getFilesForIssue issueA contexts)
                                      (getFilesForIssue issueB contexts))"
  have r: "overlap_row issues contexts issueA
             = foldl (\<lambda>m x. m(issue_id x \<mapsto> g x)) Map.empty issues"
    unfolding overlap_row_alt g_def ..
  from foldl_update_last [where f = issue_id and g = g and ?m0.0 = Map.empty, OF assms(1)]
  obtain b where "b \<in> set issues" and b: "issue_id b = k
    \<and> foldl (\<lambda>m x. m(issue_id x \<mapsto> g x)) Map.empty issues k = Some (g b)"
    ..
  have "g b = 1" using b assms(2) by (simp add: g_def)
  with b r show ?thesis by simp
qed

lemma matrix_self:
  assumes "issue \<in> set issues"
  shows "\<exists>rowMap. calculateOverlapMatrix issues contexts (issue_id issue) = Some rowMap
                 \<and> rowMap (issue_id issue) = Some 1"
proof -
  have k: "issue_id issue \<in> issue_id ` set issues" using assms by simp
  from foldl_update_last [where f = issue_id and g = "overlap_row issues contexts"
                            and ?m0.0 = Map.empty, OF k]
  obtain a where "a \<in> set issues" and a: "issue_id a = issue_id issue
    \<and> foldl (\<lambda>m x. m(issue_id x \<mapsto> overlap_row issues contexts x)) Map.empty issues
       (issue_id issue) = Some (overlap_row issues contexts a)"
    ..
  from a have "calculateOverlapMatrix issues contexts (issue_id issue)
                    = Some (overlap_row issues contexts a)"
    by (simp only: calculateOverlapMatrix_def)
  moreover have "overlap_row issues contexts a (issue_id issue) = Some 1"
    using k a by (intro overlap_row_self) simp_all
  ultimately show ?thesis by simp
qed

lemma jaccard_bounds: "0 \<le> jaccardSimilarity A B \<and> jaccardSimilarity A B \<le> 1"
proof -
  let ?q = "(of_nat (card (A \<inter> B)) :: rat) / of_nat (card (A \<union> B))"
  have q0: "0 \<le> ?q" by simp
  have q1: "?q \<le> 1"
  proof (cases "finite (A \<union> B)")
    case True
    then have "card (A \<inter> B) \<le> card (A \<union> B)" by (intro card_mono) auto
    then have le: "(of_nat (card (A \<inter> B)) :: rat) \<le> of_nat (card (A \<union> B))" by simp
    show ?thesis
    proof (cases "card (A \<union> B) = 0")
      case True
      then show ?thesis by simp
    next
      case False
      then have "(0::rat) < of_nat (card (A \<union> B))" by simp
      with le show ?thesis by (simp only: divide_le_eq_1_pos)
    qed
  next
    case False
    then show ?thesis by simp
  qed
  have d0: "0 \<le> dbl ?q" using q0 by (rule dbl_nonneg)
  have "dbl ?q \<le> dbl 1" using q0 q1 by (rule dbl_mono_nonneg)
  then have d1: "dbl ?q \<le> 1" by (simp only: dbl_1)
  show ?thesis
  proof (cases "card A = 0 \<and> card B = 0")
    case True
    then have "jaccardSimilarity A B = 0" unfolding jaccardSimilarity_def by simp
    then show ?thesis by simp
  next
    case False
    then have "jaccardSimilarity A B = dbl ?q"
      unfolding jaccardSimilarity_def js_div_def by (simp only: if_False)
    with d0 d1 show ?thesis by simp
  qed
qed

lemma jaccard_commute: "jaccardSimilarity A B = jaccardSimilarity B A"
proof -
  have "A \<inter> B = B \<inter> A" and "A \<union> B = B \<union> A" by auto
  moreover have "(card A = 0 \<and> card B = 0) = (card B = 0 \<and> card A = 0)" by (rule conj_commute)
  ultimately show ?thesis unfolding jaccardSimilarity_def by (simp only:)
qed

lemma jaccard_empty: "jaccardSimilarity {} {} = 0"
  unfolding jaccardSimilarity_def by (simp only: card.empty simp_thms if_True)

text \<open>
  \<^bold>\<open>C4.\<close> The Jaccard similarity of two sets of paths is symmetric, lies between 0 and 1,
  and is 0 for two empty sets; in the overlap matrix the entry of every issue with itself
  is 1.
\<close>

theorem jaccard_symmetric_bounded_self_one:
  "jaccardSimilarity A B = jaccardSimilarity B A
   \<and> 0 \<le> jaccardSimilarity A B \<and> jaccardSimilarity A B \<le> 1
   \<and> jaccardSimilarity {} {} = 0
   \<and> (\<forall>issue \<in> set issues.
         \<exists>rowMap. calculateOverlapMatrix issues contexts (issue_id issue) = Some rowMap
                  \<and> rowMap (issue_id issue) = Some 1)"
proof -
  have "\<forall>issue \<in> set issues.
         \<exists>rowMap. calculateOverlapMatrix issues contexts (issue_id issue) = Some rowMap
                  \<and> rowMap (issue_id issue) = Some 1"
    using matrix_self by (intro ballI)
  with jaccard_commute [of A B] jaccard_bounds [of A B] jaccard_empty show ?thesis
    by (intro conjI) simp_all
qed

theorem jaccard_symmetric_bounded_self_one_witness:
  "jaccardSimilarity {''a.ts''} {''a.ts'', ''b.ts''} = 1 / 2
   \<and> jaccardSimilarity {''a.ts'', ''b.ts''} {''a.ts''} = 1 / 2
   \<and> matrix_get (calculateOverlapMatrix [issue_p1] Map.empty) ''1'' ''1'' = 1"
proof -
  have h: "js_div 1 2 = 1 / 2"
    using dbl_cert [of "1 / 2" "- 1"] by (simp add: dbl_eval)
  have "card ({''a.ts''} \<inter> {''a.ts'', ''b.ts''}) = 1"
    and "card ({''a.ts''} \<union> {''a.ts'', ''b.ts''}) = 2"
    by (simp_all add: card_insert_if)
  then have a: "jaccardSimilarity {''a.ts''} {''a.ts'', ''b.ts''} = 1 / 2"
    by (simp add: jaccardSimilarity_def h)
  have i: "issue_id issue_p1 = ''1''" by (simp add: issue_p1_def)
  note t = jaccard_symmetric_bounded_self_one
             [of "{''a.ts''}" "{''a.ts'', ''b.ts''}" "[issue_p1]" Map.empty]
  from t have s: "jaccardSimilarity {''a.ts''} {''a.ts'', ''b.ts''}
                    = jaccardSimilarity {''a.ts'', ''b.ts''} {''a.ts''}"
    by (rule conjunct1)
  have "\<forall>issue \<in> set [issue_p1].
         \<exists>rowMap. calculateOverlapMatrix [issue_p1] Map.empty (issue_id issue) = Some rowMap
                  \<and> rowMap (issue_id issue) = Some 1"
    by (rule t [THEN conjunct2, THEN conjunct2, THEN conjunct2, THEN conjunct2])
  then have "\<exists>rowMap. calculateOverlapMatrix [issue_p1] Map.empty ''1'' = Some rowMap
                  \<and> rowMap ''1'' = Some 1"
    by (simp add: i)
  then obtain rowMap where r: "calculateOverlapMatrix [issue_p1] Map.empty ''1'' = Some rowMap
                  \<and> rowMap ''1'' = Some 1"
    ..
  have m: "matrix_get (calculateOverlapMatrix [issue_p1] Map.empty) ''1'' ''1'' = 1"
    by (simp add: matrix_get_def r js_or_def)
  from a s m show ?thesis by simp
qed

section \<open>The shared-context discount\<close>

















section \<open>The risk score\<close>

lemma foldl_weights:
  "foldl (\<lambda>t risk. t + impactWeights (impact risk) * likelihoodWeights (likelihood risk)) n risks
     = n + risk_weight_sum risks"
  by (induction risks arbitrary: n) (simp_all add: risk_weight_sum_def)

lemma score_formula:
  "calculateRiskScore risks
     = min 100 (js_round (js_mul (js_div (of_nat (risk_weight_sum risks)) 240) 100))"
proof (cases risks)
  case Nil
  then show ?thesis by (simp add: calculateRiskScore_def risk_weight_sum_def js_div_def)
next
  case (Cons r rs)
  then show ?thesis
    by (simp add: calculateRiskScore_def foldl_weights Let_def del: foldl.simps)
qed

lemma score_mono:
  assumes "risk_weight_sum rs \<le> risk_weight_sum rs'"
  shows "calculateRiskScore rs \<le> calculateRiskScore rs'"
proof -
  have "(of_nat (risk_weight_sum rs) / 240 :: rat) \<le> of_nat (risk_weight_sum rs') / 240"
    using assms by (simp add: divide_right_mono)
  then have "js_div (of_nat (risk_weight_sum rs)) 240 \<le> js_div (of_nat (risk_weight_sum rs')) 240"
    unfolding js_div_def by (intro dbl_mono_nonneg) simp_all
  moreover have "0 \<le> js_div (of_nat (risk_weight_sum rs)) 240"
    unfolding js_div_def by (intro dbl_nonneg) simp
  ultimately have "js_mul (js_div (of_nat (risk_weight_sum rs)) 240) 100
                     \<le> js_mul (js_div (of_nat (risk_weight_sum rs')) 240) 100"
    unfolding js_mul_def by (intro dbl_mono_nonneg) simp_all
  then show ?thesis
    unfolding score_formula using js_round_mono by (meson min.mono order_refl)
qed

lemma score_bounds: "0 \<le> calculateRiskScore rs \<and> calculateRiskScore rs \<le> 100"
proof -
  have "0 \<le> js_div (of_nat (risk_weight_sum rs)) 240"
    unfolding js_div_def by (intro dbl_nonneg) simp
  then have "0 \<le> js_mul (js_div (of_nat (risk_weight_sum rs)) 240) 100"
    unfolding js_mul_def by (intro dbl_nonneg) simp
  then show ?thesis unfolding score_formula by (simp add: js_round_nonneg)
qed

lemma sum_138: "risk_weight_sum risks_138 = 138"
  by (simp add: risk_weight_sum_def risks_138_def sample_risk_def sum_list_replicate)

lemma score_138_values:
  "js_div 138 240 = 2589569785738035 / 4503599627370496"
  "js_mul (2589569785738035 / 4503599627370496) 100 = 8092405580431359 / 140737488355328"
  using dbl_cert [of "23 / 40" "- 1"]
        dbl_cert [of "2589569785738035 / 4503599627370496 * 100" 5]
  by (simp_all add: dbl_eval)

text \<open>
  \<^bold>\<open>C5.\<close> The score is \<open>min(100, round(p))\<close> where \<open>p\<close> is the double the host computes for
  \<open>(S / 240) * 100\<close>, \<open>S\<close> the sum of impact weight times likelihood weight. It lies
  between 0 and 100 and a risk appended never lowers it. It is not always
  \<open>min(100, round(100 * S / 240))\<close>: for the ten risks of \<open>risks_138\<close> the sum is 138, the
  quotient \<open>138 / 240\<close> rounds to a double below 0.575, the product to 57.49999999999999,
  and the score is 57, where the percentage 57.5 rounds to 58.
\<close>

theorem risk_score_rounds_down_at_138:
  "risk_weight_sum risks_138 = 138
   \<and> calculateRiskScore risks_138 = 57
   \<and> min 100 (js_round (100 * of_nat (risk_weight_sum risks_138) / 240)) = 58
   \<and> (\<forall>risks. 0 \<le> calculateRiskScore risks \<and> calculateRiskScore risks \<le> 100)
   \<and> (\<forall>risks r. calculateRiskScore risks \<le> calculateRiskScore (risks @ [r]))"
proof -
  have a: "calculateRiskScore risks_138 = 57"
    unfolding score_formula sum_138 by (simp add: score_138_values) (simp add: js_round_def floor_rat_numeral_divide)
  have b: "min 100 (js_round (100 * of_nat (risk_weight_sum risks_138) / 240)) = 58"
    unfolding sum_138 by (simp add: js_round_def floor_rat_numeral_divide)
  have c: "calculateRiskScore risks \<le> calculateRiskScore (risks @ [r])" for risks r
    by (rule score_mono) (simp add: risk_weight_sum_def)
  from a b c score_bounds sum_138 show ?thesis by blast
qed

section \<open>The risk predictor\<close>

lemma never_high_priority: "\<not> high_priority issue"
  by (cases "priority issue") (simp_all add: high_priority_def)

lemma no_risk_files: "risk_files ctx = []"
  by (cases ctx) (simp_all add: risk_files_def filePaths_def)

text \<open>
  \<^bold>\<open>C7.\<close> The impact of a risk is raised for an issue whose priority is the string
  \<open>urgent\<close> or \<open>critical\<close>. No value of \<open>Priority\<close> is either string, so no issue has its
  impact raised: for the issue \<open>issue_api_p0\<close> of priority P0-Critical, which matches the
  external-dependency pattern by its keyword, the risk keeps the pattern's default impact
  high, where the property asks for critical.
\<close>

theorem urgent_priority_impact_not_raised:
  "priority issue_api_p0 = P0_Critical
   \<and> map (\<lambda>r. (category r, impact r))
         (analyzeIssue example_host RISK_PATTERNS issue_api_p0 None 1)
       = [(external_dependency, ImpactHigh)]
   \<and> map (\<lambda>p. (pattern_category p, defaultImpact p)) (take 1 RISK_PATTERNS)
       = [(external_dependency, ImpactHigh)]
   \<and> (\<forall>issue. \<not> high_priority issue)"
proof -
  have "map (\<lambda>r. (category r, impact r))
          (analyzeIssue example_host RISK_PATTERNS issue_api_p0 None 1)
        = [(external_dependency, ImpactHigh)]"
    by code_simp
  moreover have "map (\<lambda>p. (pattern_category p, defaultImpact p)) (take 1 RISK_PATTERNS)
        = [(external_dependency, ImpactHigh)]"
    by (simp add: RISK_PATTERNS_def)
  moreover have "priority issue_api_p0 = P0_Critical"
    by (simp add: issue_api_p0_def)
  ultimately show ?thesis using never_high_priority by simp
qed

text \<open>
  \<^bold>\<open>C6.\<close> Of the three signals the file signal never fires: the files are read from the
  property \<open>filePaths\<close>, which a context does not have, so the list of files is empty for
  every context. The issue \<open>issue_typo\<close> matches no keyword and no description pattern,
  its context \<open>context_api_file\<close> touches \<open>src/api/users.ts\<close>, which the file pattern
  \<open>api/\<close> of the external-dependency pattern matches, and no risk is emitted for it.
\<close>

theorem file_signal_never_fires:
  "analyzeIssue example_host RISK_PATTERNS issue_typo (Some context_api_file) 1 = []
   \<and> context_paths context_api_file = [''src/api/users.ts'']
   \<and> list_ex (\<lambda>fp. list_ex (\<lambda>f. rx_test fp f) (context_paths context_api_file))
              (filePatterns (RISK_PATTERNS ! 0))
   \<and> (\<forall>ctx. risk_files ctx = [])"
proof -
  have "analyzeIssue example_host RISK_PATTERNS issue_typo (Some context_api_file) 1 = []"
    by code_simp
  moreover have "list_ex (\<lambda>fp. list_ex (\<lambda>f. rx_test fp f) (context_paths context_api_file))
              (filePatterns (RISK_PATTERNS ! 0))"
    by code_simp
  moreover have "context_paths context_api_file = [''src/api/users.ts'']"
    by (simp add: context_paths_def context_api_file_def)
  ultimately show ?thesis using no_risk_files by simp
qed

section \<open>Agent inference\<close>

text \<open>
  \<^bold>\<open>C9.\<close> Agent inference tries the categories in the order security, frontend, backend,
  devops, test, documentation, research and takes the first whose labels or text
  patterns match, general-purpose when none does. An issue with both a security and a
  frontend signal is assigned the security specialist; an issue with no signal is
  assigned general-purpose.
\<close>

theorem agent_inference_first_match:
  "inferAgentType issue = first_match agent_precedence (agent_labels issue) (agent_text issue)
   \<and> map snd agent_precedence @ [GeneralPurpose]
       = [SecuritySpecialist, FrontendDeveloper, BackendDeveloper, DevopsEngineer, TestEngineer,
          DocumentationWriter, Researcher, GeneralPurpose]
   \<and> (security_signal (agent_labels issue) (agent_text issue)
        \<and> frontend_signal (agent_labels issue) (agent_text issue)
       \<longrightarrow> inferAgentType issue = SecuritySpecialist)
   \<and> ((\<forall>entry \<in> set agent_precedence. \<not> fst entry (agent_labels issue) (agent_text issue))
       \<longrightarrow> inferAgentType issue = GeneralPurpose)"
  by (simp add: inferAgentType_def agent_precedence_def Let_def)

lemma xss_signals:
  "security_signal (agent_labels issue_xss) (agent_text issue_xss)"
  "frontend_signal (agent_labels issue_xss) (agent_text issue_xss)"
  by code_simp+

lemma plain_signals:
  "\<forall>entry \<in> set agent_precedence. \<not> fst entry (agent_labels issue_plain) (agent_text issue_plain)"
  by code_simp

theorem agent_inference_first_match_witness:
  "security_signal (agent_labels issue_xss) (agent_text issue_xss)
   \<and> frontend_signal (agent_labels issue_xss) (agent_text issue_xss)
   \<and> inferAgentType issue_xss = SecuritySpecialist
   \<and> inferAgentType issue_plain = GeneralPurpose"
  using agent_inference_first_match [of issue_xss] agent_inference_first_match [of issue_plain]
        xss_signals plain_signals
  by blast

section \<open>The waves of the organizer\<close>

text \<open>
  The groups of \<open>groupByContext\<close> partition the issues: an issue joins the first group
  whose seed it is similar to, and is then marked as assigned. Sorting the groups,
  splitting them and numbering the sub-groups move no issue from one list to another.
\<close>

lemma similar_to_alt:
  "similar_to cfg M A issue other
     = (issue_id other \<notin> A
        \<and> (issue_id other = issue_id issue
           \<or> similarityThreshold cfg \<le> matrix_get M (issue_id issue) (issue_id other)))"
  by (simp add: similar_to_def)

lemma mset_filter_split:
  "mset (filter (\<lambda>x. R x \<and> P x) xs) + mset (filter (\<lambda>x. R x \<and> \<not> P x) xs)
     = mset (filter R xs)"
  by (induction xs) auto

lemma group_step_mset:
  fixes srtd :: "Issue list"
  assumes similar: "similar = filter (\<lambda>x. issue_id x \<notin> A \<and> Q (issue_id x)) srtd"
  shows "mset similar
           + mset (filter (\<lambda>x. issue_id x \<notin> A \<union> set (map issue_id similar)) srtd)
         = mset (filter (\<lambda>x. issue_id x \<notin> A) srtd)"
proof -
  have in_sim: "issue_id x \<in> set (map issue_id similar) \<longleftrightarrow> issue_id x \<notin> A \<and> Q (issue_id x)"
    if "x \<in> set srtd" for x
  proof
    assume "issue_id x \<in> set (map issue_id similar)"
    then obtain s where "s \<in> set similar" "issue_id s = issue_id x" by auto
    then show "issue_id x \<notin> A \<and> Q (issue_id x)" by (auto simp add: similar)
  next
    assume "issue_id x \<notin> A \<and> Q (issue_id x)"
    with that have "x \<in> set similar" by (simp add: similar)
    then show "issue_id x \<in> set (map issue_id similar)" by simp
  qed
  have "filter (\<lambda>x. issue_id x \<notin> A \<union> set (map issue_id similar)) srtd
          = filter (\<lambda>x. issue_id x \<notin> A \<and> \<not> Q (issue_id x)) srtd"
    by (rule filter_cong [OF refl]) (use in_sim in auto)
  then have "mset similar
           + mset (filter (\<lambda>x. issue_id x \<notin> A \<union> set (map issue_id similar)) srtd)
         = mset (filter (\<lambda>x. issue_id x \<notin> A \<and> Q (issue_id x)) srtd)
           + mset (filter (\<lambda>x. issue_id x \<notin> A \<and> \<not> Q (issue_id x)) srtd)"
    by (simp only: similar)
  also have "\<dots> = mset (filter (\<lambda>x. issue_id x \<notin> A) srtd)"
    by (rule mset_filter_split)
  finally show ?thesis .
qed

lemma group_loop_mset:
  assumes "set rest \<subseteq> set srtd"
    and "\<forall>x \<in> set srtd. issue_id x \<notin> A \<longrightarrow> x \<in> set rest"
  shows "mset (concat (map group_issues (group_loop cfg M srtd A rest)))
           = mset (filter (\<lambda>x. issue_id x \<notin> A) srtd)"
  using assms
proof (induction rest arbitrary: A)
  case Nil
  then have "filter (\<lambda>x. issue_id x \<notin> A) srtd = []" by (simp add: filter_empty_conv)
  then show ?case by simp
next
  case (Cons i rest)
  from Cons.prems have sub: "set rest \<subseteq> set srtd" and i: "i \<in> set srtd" by simp_all
  show ?case
  proof (cases "issue_id i \<in> A")
    case True
    have "\<forall>x \<in> set srtd. issue_id x \<notin> A \<longrightarrow> x \<in> set rest"
      using Cons.prems(2) True by auto
    from Cons.IH [OF sub this] True show ?thesis by simp
  next
    case False
    define Q where "Q = (\<lambda>k. k = issue_id i
                              \<or> similarityThreshold cfg \<le> matrix_get M (issue_id i) k)"
    define similar where "similar = filter (\<lambda>x. issue_id x \<notin> A \<and> Q (issue_id x)) srtd"
    have "similar_to cfg M A i = (\<lambda>x. issue_id x \<notin> A \<and> Q (issue_id x))"
      by (rule ext) (simp add: similar_to_alt Q_def)
    then have sim: "filter (similar_to cfg M A i) srtd = similar"
      by (simp only: similar_def)
    have "i \<in> set similar" using i False by (simp add: similar_def Q_def)
    then have iA: "issue_id i \<in> A \<union> set (map issue_id similar)" by simp
    have pre: "\<forall>x \<in> set srtd. issue_id x \<notin> A \<union> set (map issue_id similar) \<longrightarrow> x \<in> set rest"
    proof (intro ballI impI)
      fix x assume x: "x \<in> set srtd" "issue_id x \<notin> A \<union> set (map issue_id similar)"
      then have "x \<in> set (i # rest)" using Cons.prems(2) by simp
      moreover have "x \<noteq> i" using x(2) iA by auto
      ultimately show "x \<in> set rest" by simp
    qed
    have "mset (concat (map group_issues (group_loop cfg M srtd A (i # rest))))
            = mset similar
              + mset (concat (map group_issues
                   (group_loop cfg M srtd (A \<union> set (map issue_id similar)) rest)))"
      using False by (simp add: sim Let_def)
    also have "\<dots> = mset similar
              + mset (filter (\<lambda>x. issue_id x \<notin> A \<union> set (map issue_id similar)) srtd)"
      by (simp only: Cons.IH [OF sub pre])
    also have "\<dots> = mset (filter (\<lambda>x. issue_id x \<notin> A) srtd)"
      by (rule group_step_mset [OF similar_def])
    finally show ?thesis .
  qed
qed

lemma groupByContext_mset:
  "mset (concat (map group_issues (groupByContext cfg issues M))) = mset issues"
proof -
  let ?s = "sort_key (\<lambda>i. priorityOrder (priority i)) issues"
  have "mset (concat (map group_issues (group_loop cfg M ?s {} ?s)))
          = mset (filter (\<lambda>x. issue_id x \<notin> {}) ?s)"
    by (rule group_loop_mset) simp_all
  then show ?thesis by (simp add: groupByContext_def Let_def)
qed

lemma concat_map_mset_cong:
  assumes "mset xs = mset ys"
  shows "mset (concat (map f xs)) = mset (concat (map f ys))"
proof -
  have "mset (concat (map f zs)) = sum_mset (image_mset (\<lambda>z. mset (f z)) (mset zs))" for zs
    by (induction zs) simp_all
  with assms show ?thesis by simp
qed

lemma split_step_concat:
  "foldl (split_step h ecfg cfg contexts grp) (subs, cur, tok) xs = (subs', cur', tok')
   \<Longrightarrow> concat (map group_issues subs') @ cur' = concat (map group_issues subs) @ cur @ xs"
proof (induction xs arbitrary: subs cur tok)
  case Nil
  then show ?case by simp
next
  case (Cons x xs)
  obtain s1 c1 t1 where st: "split_step h ecfg cfg contexts grp (subs, cur, tok) x = (s1, c1, t1)"
    by (cases "split_step h ecfg cfg contexts grp (subs, cur, tok) x") auto
  then have one: "concat (map group_issues s1) @ c1 = concat (map group_issues subs) @ cur @ [x]"
    by (auto simp add: split_step_def sub_group_def Let_def split: if_splits)
  from Cons.prems st have "foldl (split_step h ecfg cfg contexts grp) (s1, c1, t1) xs
                             = (subs', cur', tok')" by simp
  from Cons.IH [OF this] one show ?case by simp
qed

lemma splitGroupIfNeeded_concat:
  "concat (map group_issues (splitGroupIfNeeded h ecfg cfg grp contexts)) = group_issues grp"
proof -
  obtain subs cur tok where f: "foldl (split_step h ecfg cfg contexts grp) ([], [], 0)
                                  (group_issues grp) = (subs, cur, tok)"
    by (cases "foldl (split_step h ecfg cfg contexts grp) ([], [], 0) (group_issues grp)") auto
  from split_step_concat [OF f]
  have c: "concat (map group_issues subs) @ cur = group_issues grp" by simp
  then have "concat (map group_issues
               (if length cur > 0 then subs @ [sub_group grp cur] else subs)) = group_issues grp"
    by (auto simp add: sub_group_def)
  then show ?thesis by (simp add: splitGroupIfNeeded_def f)
qed

lemma foldl_add_wave:
  "foldl (add_wave h ecfg contexts) (wvs, n) sgs = (wvs', n')
   \<Longrightarrow> n' = n + length sgs
     \<and> map wave_issues wvs' = map wave_issues wvs @ map group_issues sgs
     \<and> map wave_number wvs' = map wave_number wvs @ [n ..< n + length sgs]"
proof (induction sgs arbitrary: wvs n)
  case Nil
  then show ?case by simp
next
  case (Cons sg sgs)
  obtain w where st: "add_wave h ecfg contexts (wvs, n) sg = (wvs @ [w], n + 1)"
    and w: "wave_issues w = group_issues sg" "wave_number w = n"
    by (simp add: add_wave_def)
  from Cons.prems st have "foldl (add_wave h ecfg contexts) (wvs @ [w], n + 1) sgs = (wvs', n')"
    by simp
  from Cons.IH [OF this]
  have n: "n' = Suc n + length sgs"
    and wi: "map wave_issues wvs' = map wave_issues (wvs @ [w]) @ map group_issues sgs"
    and wn: "map wave_number wvs' = map wave_number (wvs @ [w]) @ [Suc n ..< Suc n + length sgs]"
    by simp_all
  have lt: "n < n + length (sg # sgs)" by simp
  have eq: "n + length (sg # sgs) = Suc n + length sgs" by simp
  have u: "[n ..< n + length (sg # sgs)] = n # [Suc n ..< Suc n + length sgs]"
    using upt_conv_Cons [OF lt] by (simp only: eq)
  have "map wave_number wvs' = map wave_number wvs @ (n # [Suc n ..< Suc n + length sgs])"
    using wn w by simp
  then have "map wave_number wvs' = map wave_number wvs @ [n ..< n + length (sg # sgs)]"
    by (simp only: u)
  moreover have "map wave_issues wvs' = map wave_issues wvs @ map group_issues (sg # sgs)"
    using wi w by simp
  moreover have "n' = n + length (sg # sgs)" using n by simp
  ultimately show ?case by (intro conjI)
qed

lemma foldl_groups_concat:
  "foldl (\<lambda>st grp. foldl f st (g grp)) st groups = foldl f st (concat (map g groups))"
  by (induction groups arbitrary: st) simp_all

lemma groupsToWaves_props:
  "concat (map wave_issues (groupsToWaves h ecfg cfg groups contexts))
     = concat (map group_issues groups)"
  "map wave_number (groupsToWaves h ecfg cfg groups contexts)
     = [1 ..< Suc (length (groupsToWaves h ecfg cfg groups contexts))]"
proof -
  let ?sgs = "concat (map (\<lambda>grp. splitGroupIfNeeded h ecfg cfg grp contexts) groups)"
  obtain wvs n where f: "foldl (add_wave h ecfg contexts) ([], 1) ?sgs = (wvs, n)"
    by (cases "foldl (add_wave h ecfg contexts) ([], 1) ?sgs") auto
  have g: "groupsToWaves h ecfg cfg groups contexts = wvs"
    by (simp only: groupsToWaves_def foldl_groups_concat f fst_conv)
  from foldl_add_wave [OF f]
  have wi: "map wave_issues wvs = map group_issues ?sgs"
    and wn: "map wave_number wvs = [1 ..< 1 + length ?sgs]" by simp_all
  from wi have len: "length wvs = length ?sgs" by (metis length_map)
  have "concat (map group_issues ?sgs) = concat (map group_issues groups)"
    by (induction groups) (simp_all add: splitGroupIfNeeded_concat)
  with wi show "concat (map wave_issues (groupsToWaves h ecfg cfg groups contexts))
     = concat (map group_issues groups)" by (simp add: g)
  from wn len show "map wave_number (groupsToWaves h ecfg cfg groups contexts)
     = [1 ..< Suc (length (groupsToWaves h ecfg cfg groups contexts))]" by (simp add: g)
qed

lemma insert_by_mset: "mset (insert_by cmp x ys) = add_mset x (mset ys)"
  by (induction ys) simp_all

lemma insertion_sort_mset: "mset (insertion_sort cmp xs) = mset xs"
  unfolding insertion_sort_def by (induction xs) (simp_all add: insert_by_mset)

lemma unique_index:
  assumes "distinct (concat xss)" "x \<in> set (concat xss)"
  shows "\<exists>!k. k < length xss \<and> x \<in> set (xss ! k)"
  using assms
proof (induction xss)
  case Nil
  then show ?case by simp
next
  case (Cons ys yss)
  from Cons.prems(1) have d: "distinct (concat yss)"
    and disj: "set ys \<inter> set (concat yss) = {}" by simp_all
  have later: "x \<in> set (concat yss)" if "j < length yss" "x \<in> set (yss ! j)" for j
    using that by (auto intro: nth_mem)
  show ?case
  proof (cases "x \<in> set ys")
    case True
    with disj have nx: "x \<notin> set (concat yss)" by auto
    show ?thesis
    proof (rule ex1I [of _ 0])
      show "0 < length (ys # yss) \<and> x \<in> set ((ys # yss) ! 0)" using True by simp
    next
      fix k assume k: "k < length (ys # yss) \<and> x \<in> set ((ys # yss) ! k)"
      show "k = 0"
      proof (cases k)
        case 0
        then show ?thesis .
      next
        case (Suc j)
        with k have "j < length yss" "x \<in> set (yss ! j)" by simp_all
        then have "x \<in> set (concat yss)" by (rule later)
        with nx show ?thesis by simp
      qed
    qed
  next
    case False
    with Cons.prems(2) have "x \<in> set (concat yss)" by simp
    from Cons.IH [OF d this] obtain j where j: "j < length yss" "x \<in> set (yss ! j)"
      and uniq: "\<And>i. i < length yss \<and> x \<in> set (yss ! i) \<Longrightarrow> i = j"
      by blast
    show ?thesis
    proof (rule ex1I [of _ "Suc j"])
      show "Suc j < length (ys # yss) \<and> x \<in> set ((ys # yss) ! Suc j)" using j by simp
    next
      fix k assume k: "k < length (ys # yss) \<and> x \<in> set ((ys # yss) ! k)"
      show "k = Suc j"
      proof (cases k)
        case 0
        with k False show ?thesis by simp
      next
        case (Suc i)
        with k have "i < length yss \<and> x \<in> set (yss ! i)" by simp
        then have "i = j" by (rule uniq)
        with Suc show ?thesis by simp
      qed
    qed
  qed
qed

lemma organize_props:
  assumes "\<forall>cmp gs. mset (srt cmp gs) = mset gs"
  shows "mset (concat (map wave_issues (organize h srt ecfg cfg issues contexts))) = mset issues"
    and "map wave_number (organize h srt ecfg cfg issues contexts)
           = [1 ..< Suc (length (organize h srt ecfg cfg issues contexts))]"
proof -
  define groups where "groups = groupByContext cfg issues (calculateOverlapMatrix issues contexts)"
  define og where "og = (if respectDependencies cfg then orderByDependencies srt groups issues
                         else groups)"
  define gw where "gw = groupsToWaves h ecfg cfg og contexts"
  have org: "organize h srt ecfg cfg issues contexts
               = (if length issues = 0 then []
                  else map (\<lambda>wave. wave \<lparr> agents := assignAgents (wave_issues wave) \<rparr>) gw)"
    by (simp add: organize_def Let_def gw_def og_def groups_def)
  have wi: "map wave_issues (map (\<lambda>wave. wave \<lparr> agents := assignAgents (wave_issues wave) \<rparr>) gw)
              = map wave_issues gw"
    and wn: "map wave_number (map (\<lambda>wave. wave \<lparr> agents := assignAgents (wave_issues wave) \<rparr>) gw)
              = map wave_number gw"
    by simp_all
  have "mset og = mset groups"
    using assms by (simp add: og_def orderByDependencies_def)
  then have "mset (concat (map group_issues og)) = mset (concat (map group_issues groups))"
    by (rule concat_map_mset_cong)
  also have "\<dots> = mset issues" unfolding groups_def by (rule groupByContext_mset)
  finally have m: "mset (concat (map wave_issues gw)) = mset issues"
    by (simp add: gw_def groupsToWaves_props(1))
  show "mset (concat (map wave_issues (organize h srt ecfg cfg issues contexts))) = mset issues"
  proof (cases "length issues = 0")
    case True
    then have "issues = []" by simp
    then show ?thesis by (simp add: organize_def)
  next
    case False
    then show ?thesis by (simp only: org if_False wi m)
  qed
  have n: "map wave_number gw = [1 ..< Suc (length gw)]"
    unfolding gw_def by (rule groupsToWaves_props(2))
  show "map wave_number (organize h srt ecfg cfg issues contexts)
           = [1 ..< Suc (length (organize h srt ecfg cfg issues contexts))]"
  proof (cases "length issues = 0")
    case True
    then have "issues = []" by simp
    then show ?thesis by (simp add: organize_def)
  next
    case False
    then show ?thesis by (simp only: org if_False wn n length_map)
  qed
qed

text \<open>
  \<^bold>\<open>C3.\<close> For every list of issues with distinct ids, the empty list included, and every
  map of contexts, every issue of the input is in exactly one wave of the output of
  \<open>organize\<close> (the issues of the waves, taken together, are those of the input, each one
  once), and the numbers of the waves are 1, 2, ..., N in the order of the output. The
  sort of the host, which \<open>orderByDependencies\<close> calls with a comparator that is not an
  order, is only taken to return a permutation of the array it is given.
\<close>

theorem organize_every_issue_in_one_wave:
  assumes "distinct (map issue_id issues)"
    and "\<forall>cmp gs. mset (srt cmp gs) = mset gs"
  shows "mset (concat (map wave_issues (organize h srt ecfg cfg issues contexts))) = mset issues
   \<and> (\<forall>issue \<in> set issues.
         \<exists>!k. k < length (organize h srt ecfg cfg issues contexts)
               \<and> issue \<in> set (wave_issues (organize h srt ecfg cfg issues contexts ! k)))
   \<and> map wave_number (organize h srt ecfg cfg issues contexts)
       = [1 ..< Suc (length (organize h srt ecfg cfg issues contexts))]"
proof -
  define W where "W = organize h srt ecfg cfg issues contexts"
  have m: "mset (concat (map wave_issues W)) = mset issues"
    and n: "map wave_number W = [1 ..< Suc (length W)]"
    unfolding W_def using assms(2) by (rule organize_props)+
  from assms(1) have "distinct issues" by (simp add: distinct_map)
  with m have d: "distinct (concat (map wave_issues W))"
    using mset_eq_imp_distinct_iff by blast
  have one: "\<exists>!k. k < length W \<and> issue \<in> set (wave_issues (W ! k))" if "issue \<in> set issues" for issue
  proof -
    from that m have "issue \<in> set (concat (map wave_issues W))"
      using mset_eq_setD by blast
    from unique_index [OF d this]
    have "\<exists>!k. k < length (map wave_issues W) \<and> issue \<in> set (map wave_issues W ! k)" .
    moreover have "(k < length (map wave_issues W) \<and> issue \<in> set (map wave_issues W ! k))
                     = (k < length W \<and> issue \<in> set (wave_issues (W ! k)))" for k
      by (cases "k < length W") simp_all
    ultimately show ?thesis by simp
  qed
  from m n one show ?thesis unfolding W_def by blast
qed

theorem organize_every_issue_in_one_wave_witness:
  "distinct (map issue_id [issue_p1, issue_two])
   \<and> mset (concat (map wave_issues
        (organize example_host insertion_sort DEFAULT_CONFIG DEFAULT_ORGANIZER_CONFIG
           [issue_p1, issue_two] contexts_sharing)))
       = mset [issue_p1, issue_two]
   \<and> map wave_number
        (organize example_host insertion_sort DEFAULT_CONFIG DEFAULT_ORGANIZER_CONFIG
           [issue_p1, issue_two] contexts_sharing)
       = [1 ..< Suc (length
            (organize example_host insertion_sort DEFAULT_CONFIG DEFAULT_ORGANIZER_CONFIG
               [issue_p1, issue_two] contexts_sharing))]"
proof -
  have d: "distinct (map issue_id [issue_p1, issue_two])"
    by (simp add: issue_p1_def issue_two_def)
  have p: "\<forall>cmp gs. mset (insertion_sort cmp gs :: WaveGroup list) = mset gs"
    by (simp add: insertion_sort_mset)
  from organize_every_issue_in_one_wave [OF d p, of example_host DEFAULT_CONFIG
         DEFAULT_ORGANIZER_CONFIG contexts_sharing] d
  show ?thesis by (intro conjI) (elim conjE, assumption)+
qed

end
